theory Spec2Isabelle
  imports Complex_Main
begin

section \<open>Strings\<close>

text \<open>
  A JavaScript string is modelled by the list of its bytes in UTF-8, where a surrogate that
  is not part of a pair is written as the three bytes of its code point (the bytes
  \<open>ED A0..BF 80..BF\<close>, which well-formed UTF-8 never has).
\<close>

text \<open>
  The white space that \<open>String.prototype.trim\<close> strips (WhiteSpace and LineTerminator
  of the language): U+0009 to U+000D, U+0020, U+00A0, U+1680, U+2000 to U+200A, U+2028,
  U+2029, U+202F, U+205F, U+3000 and U+FEFF, each in UTF-8.
\<close>

definition whiteSpace :: "string list" where
  "whiteSpace =
     [[CHR 0x09], [CHR 0x0A], [CHR 0x0B], [CHR 0x0C], [CHR 0x0D], [CHR 0x20],
      [CHR 0xC2, CHR 0xA0], [CHR 0xE1, CHR 0x9A, CHR 0x80]]
     @ map (\<lambda>c. [CHR 0xE2, CHR 0x80, c])
         [CHR 0x80, CHR 0x81, CHR 0x82, CHR 0x83, CHR 0x84, CHR 0x85, CHR 0x86, CHR 0x87,
          CHR 0x88, CHR 0x89, CHR 0x8A, CHR 0xA8, CHR 0xA9, CHR 0xAF]
     @ [[CHR 0xE2, CHR 0x81, CHR 0x9F], [CHR 0xE3, CHR 0x80, CHR 0x80],
        [CHR 0xEF, CHR 0xBB, CHR 0xBF]]"

text \<open>The length of the first of the patterns \<open>ws\<close> that the string starts with, or 0.\<close>

definition leading :: "string list \<Rightarrow> string \<Rightarrow> nat" where
  "leading ws s =
     (case List.find (\<lambda>w. take (length w) s = w) ws of None \<Rightarrow> 0 | Some w \<Rightarrow> length w)"

function stripLeading :: "string list \<Rightarrow> string \<Rightarrow> string" where
  "stripLeading ws s =
     (if s = [] \<or> leading ws s = 0 then s else stripLeading ws (drop (leading ws s) s))"
  by pat_completeness auto
termination
  by (relation "measure (\<lambda>(ws, s). length s)") auto

declare stripLeading.simps [simp del]

text \<open>
  \<open>s.trim()\<close>: the white space at the start is stripped, then the white space at the
  end (its bytes read backwards).
\<close>

definition trim :: "string \<Rightarrow> string" where
  "trim s = rev (stripLeading (map rev whiteSpace) (rev (stripLeading whiteSpace s)))"

text \<open>The bytes that no white space starts with, and the bytes that none ends with.\<close>

definition startsWord :: "char \<Rightarrow> bool" where
  "startsWord c = (c \<notin> hd ` set whiteSpace)"

definition endsWord :: "char \<Rightarrow> bool" where
  "endsWord c = (c \<notin> hd ` set (map rev whiteSpace))"

text \<open>\<open>s.replace(/\/$/, '')\<close>: one trailing slash is removed.\<close>

definition stripTrailingSlash :: "string \<Rightarrow> string" where
  "stripTrailingSlash s = (if s \<noteq> [] \<and> last s = CHR ''/'' then butlast s else s)"

text \<open>\<open>s.replace(/^\/+|\/+$/g, '')\<close>: every leading and every trailing slash is removed.\<close>

definition stripSlashes :: "string \<Rightarrow> string" where
  "stripSlashes s =
     rev (dropWhile (\<lambda>c. c = CHR ''/'') (rev (dropWhile (\<lambda>c. c = CHR ''/'') s)))"

text \<open>\<open>s.split(sep)\<close> for a one-character separator; the empty string splits into \<open>['']\<close>.\<close>

fun split :: "char \<Rightarrow> string \<Rightarrow> string list" where
  "split sep [] = [[]]"
| "split sep (c # cs) =
     (if c = sep then [] # split sep cs
      else (case split sep cs of [] \<Rightarrow> [[c]] | x # xs \<Rightarrow> (c # x) # xs))"

text \<open>\<open>xs.join(sep)\<close>.\<close>

fun join :: "string \<Rightarrow> string list \<Rightarrow> string" where
  "join sep [] = []"
| "join sep [x] = x"
| "join sep (x # y # ys) = x @ sep @ join sep (y # ys)"

section \<open>Values\<close>

text \<open>
  The values of the language. A finite number is the rational it denotes (every finite
  double is one); the three non-finite numbers are constructors of their own. Every value
  that is not undefined, null, a boolean, a number or a string (a BigInt, a symbol, a
  function, an object) is \<open>JOther str throws truth\<close>, given by what the program can see of
  it: \<open>str\<close> is \<open>String(v)\<close>, \<open>throws\<close> says that \<open>JSON.stringify(v)\<close> throws a TypeError
  (a BigInt, a cyclic object), and \<open>truth\<close> is \<open>Boolean(v)\<close>.
\<close>

datatype jsval =
    JUndefined
  | JNull
  | JBool bool
  | JNum rat
  | JNaN
  | JInfinity
  | JNegInfinity
  | JStr string
  | JOther string bool bool

text \<open>A string-valued option of a call: undefined (or absent), null, or a string.\<close>

datatype strval = SUndefined | SNull | SStr string

text \<open>\<open>Boolean(v)\<close>.\<close>

fun truthy :: "jsval \<Rightarrow> bool" where
  "truthy JUndefined = False"
| "truthy JNull = False"
| "truthy (JBool b) = b"
| "truthy (JNum q) = (q \<noteq> 0)"
| "truthy JNaN = False"
| "truthy JInfinity = True"
| "truthy JNegInfinity = True"
| "truthy (JStr s) = (s \<noteq> [])"
| "truthy (JOther str throws truth) = truth"

text \<open>\<open>Math.trunc\<close> on a finite number: rounding toward zero.\<close>

definition trunc :: "rat \<Rightarrow> int" where
  "trunc q = (if 0 \<le> q then \<lfloor>q\<rfloor> else \<lceil>q\<rceil>)"

text \<open>
  The errors the program throws: the \<open>Error\<close> with the message \<open>Invalid log level\<close> and
  the value it was thrown for, the URIError of the URI functions, the TypeError of
  \<open>JSON.stringify\<close>, and the RangeError of a stack that is full.
\<close>

datatype error = InvalidLevel jsval | URIError | TypeError | RangeError

section \<open>Platform functions\<close>

text \<open>
  The fields of a parsed \<open>URL\<close> object that the program reads.
\<close>

record parsed_url =
  protocol :: string
  host :: string
  hostname :: string
  pathname :: string

text \<open>
  What belongs to the platform and not to the program is a parameter of the model, the
  first argument of every function that uses it: the constructor \<open>new URL(raw)\<close>
  (\<open>None\<close> where it throws), the case mappings \<open>toUpperCase\<close> and \<open>toLowerCase\<close> of
  strings, which follow the Unicode tables, and the number of nested calls that the stack
  has room for.
\<close>

record platform =
  URL :: "string \<Rightarrow> parsed_url option"
  toUpperCase :: "string \<Rightarrow> string"
  toLowerCase :: "string \<Rightarrow> string"
  stackDepth :: nat

section \<open>Level vocabulary and coercion (client.js)\<close>

definition ALERT_LEVEL :: int where
  "ALERT_LEVEL = 45"

definition DEFAULT_BASE_URL :: string where
  "DEFAULT_BASE_URL = ''https://alshival.dev''"

definition TRUE_ENV_VALUES :: "string list" where
  "TRUE_ENV_VALUES = [''1'', ''true'', ''t'', ''yes'', ''y'', ''on'']"

definition DISABLED_LEVEL_VALUES :: "string list" where
  "DISABLED_LEVEL_VALUES = [''NONE'', ''NULL'', ''FALSE'', ''OFF'', ''DISABLE'', ''DISABLED'']"

definition CLOUD_LEVEL_NAME_TO_NO :: "(string \<times> int) list" where
  "CLOUD_LEVEL_NAME_TO_NO =
     [(''ALERT'', ALERT_LEVEL), (''ERROR'', 40), (''WARNING'', 30), (''INFO'', 20), (''DEBUG'', 10)]"

definition LEVEL_NAME_TO_NO :: "(string \<times> int) list" where
  "LEVEL_NAME_TO_NO =
     [(''ALERT'', ALERT_LEVEL), (''ALERTS'', ALERT_LEVEL), (''CRITICAL'', 50), (''FATAL'', 50),
      (''ERROR'', 40), (''WARNING'', 30), (''WARN'', 30), (''INFO'', 20), (''DEBUG'', 10),
      (''NOTSET'', 0)]"

text \<open>
  \<open>throw new Error(`Invalid log level: ${JSON.stringify(level)}`)\<close>: the error that the
  statement throws is the TypeError of \<open>JSON.stringify\<close> when that call throws, and the
  \<open>Error\<close> of the message otherwise.
\<close>

fun invalidLevel :: "jsval \<Rightarrow> error" where
  "invalidLevel (JOther str throws truth) =
     (if throws then TypeError else InvalidLevel (JOther str throws truth))"
| "invalidLevel level = InvalidLevel level"

text \<open>
  The tail of \<open>coerceLevel\<close>, from \<open>String(level).trim().toUpperCase()\<close> on: \<open>str\<close> is
  \<open>String(level)\<close>.
\<close>

definition coerceLevelName :: "platform \<Rightarrow> jsval \<Rightarrow> string \<Rightarrow> error + int option" where
  "coerceLevelName P level str =
     (let name = toUpperCase P (trim str) in
      if name \<in> set DISABLED_LEVEL_VALUES then Inr None
      else (case map_of LEVEL_NAME_TO_NO name of
              Some n \<Rightarrow> Inr (Some n)
            | None \<Rightarrow> Inl (invalidLevel level)))"

text \<open>
  \<open>coerceLevel\<close>: null, then booleans, then finite numbers, then the name of whatever is
  left.
\<close>

fun coerceLevel :: "platform \<Rightarrow> jsval \<Rightarrow> error + int option" where
  "coerceLevel P JNull = Inr None"
| "coerceLevel P (JBool b) = (if b = False then Inr None else Inl (InvalidLevel (JBool True)))"
| "coerceLevel P (JNum q) = Inr (Some (trunc q))"
| "coerceLevel P JUndefined = coerceLevelName P JUndefined ''undefined''"
| "coerceLevel P JNaN = coerceLevelName P JNaN ''NaN''"
| "coerceLevel P JInfinity = coerceLevelName P JInfinity ''Infinity''"
| "coerceLevel P JNegInfinity = coerceLevelName P JNegInfinity ''-Infinity''"
| "coerceLevel P (JStr s) = coerceLevelName P (JStr s) s"
| "coerceLevel P (JOther str throws truth) = coerceLevelName P (JOther str throws truth) str"

fun coerceCloudLevel :: "platform \<Rightarrow> jsval \<Rightarrow> error + int option" where
  "coerceCloudLevel P (JStr s) =
     (let name = toUpperCase P (trim s) in
      if name = ''NONE'' then Inr None
      else (case map_of CLOUD_LEVEL_NAME_TO_NO name of
              Some n \<Rightarrow> Inr (Some n)
            | None \<Rightarrow> Inl (invalidLevel (JStr s))))"
| "coerceCloudLevel P level = Inl (invalidLevel level)"

section \<open>The URI functions\<close>

definition hexValue :: "char \<Rightarrow> nat option" where
  "hexValue c = map_of (zip ''0123456789ABCDEF'' [0..<16] @ zip ''abcdef'' [10..<16]) c"

text \<open>One escape \<open>%XX\<close> at the head of a string: its byte and the rest.\<close>

fun escape :: "string \<Rightarrow> (nat \<times> string) option" where
  "escape (p # a # b # rest) =
     (if p = CHR ''%'' then
        (case hexValue a of
           None \<Rightarrow> None
         | Some x \<Rightarrow> (case hexValue b of None \<Rightarrow> None | Some y \<Rightarrow> Some (16 * x + y, rest)))
      else None)"
| "escape s = None"

fun escapes :: "nat \<Rightarrow> string \<Rightarrow> (nat list \<times> string) option" where
  "escapes 0 s = Some ([], s)"
| "escapes (Suc n) s =
     (case escape s of
        None \<Rightarrow> None
      | Some (b, rest) \<Rightarrow>
          (case escapes n rest of None \<Rightarrow> None | Some (bs, rest') \<Rightarrow> Some (b # bs, rest')))"

text \<open>The number of bytes of the UTF-8 sequence a lead byte announces (0: not a lead byte).\<close>

definition sequenceLength :: "nat \<Rightarrow> nat" where
  "sequenceLength b =
     (if b < 0x80 then 1 else if b < 0xC0 then 0 else if b < 0xE0 then 2
      else if b < 0xF0 then 3 else if b < 0xF8 then 4 else 0)"

definition continuation :: "nat \<Rightarrow> bool" where
  "continuation b = (0x80 \<le> b \<and> b \<le> 0xBF)"

text \<open>Well-formed UTF-8 sequences of two to four bytes.\<close>

fun validUtf8 :: "nat list \<Rightarrow> bool" where
  "validUtf8 [b0, b1] = (0xC2 \<le> b0 \<and> b0 \<le> 0xDF \<and> continuation b1)"
| "validUtf8 [b0, b1, b2] =
     ((b0 = 0xE0 \<and> 0xA0 \<le> b1 \<and> b1 \<le> 0xBF
       \<or> 0xE1 \<le> b0 \<and> b0 \<le> 0xEC \<and> continuation b1
       \<or> b0 = 0xED \<and> 0x80 \<le> b1 \<and> b1 \<le> 0x9F
       \<or> 0xEE \<le> b0 \<and> b0 \<le> 0xEF \<and> continuation b1)
      \<and> continuation b2)"
| "validUtf8 [b0, b1, b2, b3] =
     ((b0 = 0xF0 \<and> 0x90 \<le> b1 \<and> b1 \<le> 0xBF
       \<or> 0xF1 \<le> b0 \<and> b0 \<le> 0xF3 \<and> continuation b1
       \<or> b0 = 0xF4 \<and> 0x80 \<le> b1 \<and> b1 \<le> 0x8F)
      \<and> continuation b2 \<and> continuation b3)"
| "validUtf8 bs = False"

lemma escape_length: "escape s = Some (b, rest) \<Longrightarrow> length rest < length s"
  by (induction s rule: escape.induct) (auto split: if_splits option.splits)

lemma escapes_length: "escapes n s = Some (bs, rest) \<Longrightarrow> length rest \<le> length s"
proof (induction n arbitrary: s bs rest)
  case 0
  then show ?case by simp
next
  case (Suc n)
  then show ?case
    by (fastforce split: option.splits dest: escape_length)
qed

text \<open>
  \<open>decodeURIComponent\<close>: \<open>None\<close> is the URIError it throws on an escape that is not
  \<open>%\<close> and two hexadecimal digits, or on escaped bytes that are not well-formed UTF-8.
\<close>

function decodeURIComponent :: "string \<Rightarrow> string option" where
  "decodeURIComponent [] = Some []"
| "decodeURIComponent (c # cs) =
     (if c \<noteq> CHR ''%'' then map_option ((#) c) (decodeURIComponent cs)
      else
        (case escape (c # cs) of
           None \<Rightarrow> None
         | Some (b, rest) \<Rightarrow>
             if b < 0x80 then map_option ((#) (char_of b)) (decodeURIComponent rest)
             else
               (case escapes (sequenceLength b - 1) rest of
                  None \<Rightarrow> None
                | Some (bs, rest') \<Rightarrow>
                    if validUtf8 (b # bs)
                    then map_option ((@) (map char_of (b # bs))) (decodeURIComponent rest')
                    else None)))"
  by pat_completeness auto
termination
proof (relation "measure length", goal_cases)
  case 1
  then show ?case by simp
next
  case (2 c cs)
  then show ?case by simp
next
  case (3 c cs x2 b rest)
  then show ?case using escape_length [of "c # cs" b rest] by simp
next
  case (4 c cs x2 b rest x2a bs rest')
  then show ?case
    using escape_length [of "c # cs" b rest] escapes_length [of "sequenceLength b - 1" rest bs rest']
    by simp
qed

definition unreserved :: string where
  "unreserved =
     ''ABCDEFGHIJKLMNOPQRSTUVWXYZabcdefghijklmnopqrstuvwxyz0123456789-_.!~*()'' @ [CHR 0x27]"

definition hexDigit :: "nat \<Rightarrow> char" where
  "hexDigit n = ''0123456789ABCDEF'' ! n"

definition encodeChar :: "char \<Rightarrow> string" where
  "encodeChar c =
     (if c \<in> set unreserved then [c]
      else [CHR ''%'', hexDigit (of_char c div 16), hexDigit (of_char c mod 16)])"

text \<open>
  A string has a lone surrogate when the byte \<open>ED\<close> is followed by a byte from \<open>A0\<close> to
  \<open>BF\<close>: the code points U+D800 to U+DFFF start so, and a surrogate pair is written as
  the four bytes of its code point.
\<close>

fun loneSurrogate :: "string \<Rightarrow> bool" where
  "loneSurrogate (a # b # rest) =
     (a = CHR 0xED \<and> (0xA0 :: nat) \<le> of_char b \<and> (of_char b :: nat) \<le> 0xBF
      \<or> loneSurrogate (b # rest))"
| "loneSurrogate s = False"

text \<open>
  \<open>encodeURIComponent\<close> on the UTF-8 bytes of its argument; \<open>None\<close> is the URIError it
  throws on a lone surrogate.
\<close>

definition encodeURIComponent :: "string \<Rightarrow> string option" where
  "encodeURIComponent s = (if loneSurrogate s then None else Some (concat (map encodeChar s)))"

section \<open>Resource references and the configuration store (client.js)\<close>

text \<open>\<open>String(v)\<close> on a string-valued option.\<close>

fun toString :: "strval \<Rightarrow> string" where
  "toString SUndefined = ''undefined''"
| "toString SNull = ''null''"
| "toString (SStr s) = s"

text \<open>What an assignment of a string-valued option stores: null or the string.\<close>

fun stored :: "strval \<Rightarrow> string option" where
  "stored (SStr s) = Some s"
| "stored v = None"

definition normalizePortalPrefix :: "strval \<Rightarrow> string option" where
  "normalizePortalPrefix v =
     (if v = SUndefined \<or> v = SNull then None
      else
        (let raw = trim (toString v) in
         if raw = [] then Some []
         else (let cleaned = CHR ''/'' # stripSlashes raw in
               Some (if cleaned = ''/'' then [] else cleaned))))"

record reference =
  ref_baseUrl :: string
  ref_portalPrefix :: string
  ref_resourceOwnerUsername :: string
  ref_resourceId :: string

text \<open>
  The loop of \<open>parseResourceReference\<close>: the first \<open>index\<close> at or after the given one, with
  \<open>index <= segments.length - 4\<close>, where \<open>segments[index] === 'u'\<close> and
  \<open>segments[index + 2] === 'resources'\<close>.
\<close>

function findResource :: "string list \<Rightarrow> nat \<Rightarrow> nat option" where
  "findResource segments index =
     (if index + 4 \<le> length segments then
        (if segments ! index = ''u'' \<and> segments ! (index + 2) = ''resources'' then Some index
         else findResource segments (index + 1))
      else None)"
  by pat_completeness auto
termination
  by (relation "measure (\<lambda>(segments, index). length segments - index)") auto

declare findResource.simps [simp del]

text \<open>
  The segments of a path, as \<open>parseResourceReference\<close> computes them: the non-empty
  parts between slashes, without a last segment that is \<open>logs\<close> in any letter case.
\<close>

definition pathSegments :: "platform \<Rightarrow> string \<Rightarrow> string list" where
  "pathSegments P path =
     (let segments = filter (\<lambda>x. x \<noteq> []) (split CHR ''/'' path) in
      if length segments > 0 \<and> toLowerCase P (last segments) = ''logs''
      then butlast segments else segments)"

text \<open>
  The end of \<open>parseResourceReference\<close>, from \<open>if (!owner || !resourceId)\<close> on.
\<close>

definition makeReference :: "parsed_url \<Rightarrow> string \<Rightarrow> string \<Rightarrow> string list \<Rightarrow> reference option" where
  "makeReference parsed owner resourceId prefixSegments =
     (if owner = [] \<or> resourceId = [] then None
      else
        (let portalPrefix =
               (if length prefixSegments > 0 then CHR ''/'' # join ''/'' prefixSegments else [])
         in
           Some \<lparr>
             ref_baseUrl = stripTrailingSlash (protocol parsed @ ''//'' @ host parsed),
             ref_portalPrefix = (if portalPrefix = ''/'' then [] else portalPrefix),
             ref_resourceOwnerUsername = owner,
             ref_resourceId = resourceId \<rparr>))"

text \<open>
  \<open>parseResourceReference\<close>: \<open>Inr None\<close> is the result null, \<open>Inl URIError\<close> the error
  that \<open>decodeURIComponent\<close> throws, which the function does not catch. The segments are
  non-empty, so \<open>segments[index + 1] || ''\<close> is the segment itself. When the loop finds no
  index, owner and resource id stay empty and the result is null.
\<close>

definition parseResourceReference :: "platform \<Rightarrow> strval \<Rightarrow> error + reference option" where
  "parseResourceReference P resource =
     (if resource = SUndefined \<or> resource = SNull then Inr None
      else if trim (toString resource) = [] then Inr None
      else
        (case URL P (trim (toString resource)) of
           None \<Rightarrow> Inr None
         | Some parsed \<Rightarrow>
             (let segments = pathSegments P (pathname parsed) in
              case findResource segments 0 of
                None \<Rightarrow> Inr None
              | Some index \<Rightarrow>
                  (case decodeURIComponent (segments ! (index + 1)) of
                     None \<Rightarrow> Inl URIError
                   | Some decoded_owner \<Rightarrow>
                       (case decodeURIComponent (segments ! (index + 3)) of
                          None \<Rightarrow> Inl URIError
                        | Some decoded_id \<Rightarrow>
                            Inr (makeReference parsed (trim decoded_owner) (trim decoded_id)
                                   (take index segments)))))))"

text \<open>
  The configuration record. \<open>username\<close>, \<open>resourceOwnerUsername\<close>, \<open>apiKey\<close>,
  \<open>portalPrefix\<close> and \<open>resourceId\<close> are null (\<open>None\<close>) or a string; \<open>cloudLevel\<close> is
  null or a level.
\<close>

record config =
  username :: "string option"
  resourceOwnerUsername :: "string option"
  apiKey :: "string option"
  baseUrl :: string
  portalPrefix :: "string option"
  resourceId :: "string option"
  enabled :: bool
  cloudLevel :: "int option"
  timeoutSeconds :: rat
  verifySsl :: bool
  debug :: bool

type_synonym environment = "string \<Rightarrow> string option"

text \<open>\<open>a || b\<close> on two environment values: \<open>a\<close> when it is set and not empty.\<close>

definition orElse :: "string option \<Rightarrow> string option \<Rightarrow> string option" where
  "orElse a b = (case a of None \<Rightarrow> b | Some s \<Rightarrow> if s \<noteq> [] then Some s else b)"

definition envBool :: "platform \<Rightarrow> environment \<Rightarrow> string \<Rightarrow> bool \<Rightarrow> bool" where
  "envBool P env name defaultValue =
     (case env name of
        None \<Rightarrow> defaultValue
      | Some v \<Rightarrow> toLowerCase P (trim v) \<in> set TRUE_ENV_VALUES)"

definition envCloudLevel :: "platform \<Rightarrow> environment \<Rightarrow> string \<Rightarrow> int option \<Rightarrow> int option" where
  "envCloudLevel P env name defaultValue =
     (case env name of
        None \<Rightarrow> defaultValue
      | Some v \<Rightarrow>
          if trim v = [] then defaultValue
          else (case coerceCloudLevel P (JStr v) of Inl e \<Rightarrow> defaultValue | Inr l \<Rightarrow> l))"

definition buildClientConfigFromEnv :: "platform \<Rightarrow> environment \<Rightarrow> error + config" where
  "buildClientConfigFromEnv P env =
     (case parseResourceReference P
             (case orElse (env ''ALSHIVAL_RESOURCE'') (env ''ALSHIVAL_RESOURCE_URL'') of
                None \<Rightarrow> SUndefined | Some s \<Rightarrow> SStr s) of
        Inl e \<Rightarrow> Inl e
      | Inr resourceEnv \<Rightarrow>
          (let debugEnv = envBool P env ''ALSHIVAL_DEBUG'' False;
               defaultCloudLevel =
                 (if debugEnv then map_of LEVEL_NAME_TO_NO ''DEBUG''
                  else map_of LEVEL_NAME_TO_NO ''INFO'');
               base =
                 (case resourceEnv of
                    Some r \<Rightarrow> ref_baseUrl r
                  | None \<Rightarrow>
                      (case orElse (env ''ALSHIVAL_BASE_URL'') None of
                         Some s \<Rightarrow> s | None \<Rightarrow> DEFAULT_BASE_URL));
               prefix =
                 (case resourceEnv of
                    Some r \<Rightarrow> Some (ref_portalPrefix r)
                  | None \<Rightarrow>
                      normalizePortalPrefix
                        (case env ''ALSHIVAL_PORTAL_PREFIX'' of None \<Rightarrow> SUndefined | Some s \<Rightarrow> SStr s))
           in
             Inr \<lparr>
               username = orElse (env ''ALSHIVAL_USERNAME'') None,
               resourceOwnerUsername =
                 (case resourceEnv of Some r \<Rightarrow> Some (ref_resourceOwnerUsername r) | None \<Rightarrow> None),
               apiKey = orElse (env ''ALSHIVAL_API_KEY'') None,
               baseUrl = stripTrailingSlash base,
               portalPrefix = prefix,
               resourceId = (case resourceEnv of Some r \<Rightarrow> Some (ref_resourceId r) | None \<Rightarrow> None),
               enabled = True,
               cloudLevel = envCloudLevel P env ''ALSHIVAL_CLOUD_LEVEL'' defaultCloudLevel,
               timeoutSeconds = 5,
               verifySsl = True,
               debug = debugEnv \<rparr>))"

text \<open>
  The options object of \<open>configure\<close>. An option with two spellings has a field for each:
  the camel-case one is \<open>None\<close> when the object has no own property of that name, and the
  snake-case one is read only then. The cloud level has a presence test of its own for both
  spellings.
\<close>

record options =
  o_username :: strval
  o_resource :: strval
  o_apiKey :: "strval option"
  o_api_key :: strval
  o_baseUrl :: "strval option"
  o_base_url :: strval
  o_portalPrefix :: "strval option"
  o_portal_prefix :: strval
  o_enabled :: jsval
  o_cloudLevel :: "jsval option"
  o_cloud_level :: "jsval option"
  o_timeoutSeconds :: "jsval option"
  o_timeout_seconds :: jsval
  o_verifySsl :: "jsval option"
  o_verify_ssl :: jsval
  o_debug :: jsval

text \<open>\<open>hasOwnProperty(options, 'camelCase') ? options.camelCase : options.snake_case\<close>.\<close>

definition own :: "'a option \<Rightarrow> 'a \<Rightarrow> 'a" where
  "own camel snake = (case camel of Some v \<Rightarrow> v | None \<Rightarrow> snake)"

text \<open>\<open>configure\<close>, the block \<open>if (resource !== undefined)\<close>.\<close>

definition configureResource ::
  "platform \<Rightarrow> config \<Rightarrow> strval \<Rightarrow> strval \<Rightarrow> strval \<Rightarrow> error + config" where
  "configureResource P cfg resource' baseUrl' portalPrefix' =
     (if resource' \<noteq> SUndefined then
        (case parseResourceReference P resource' of
           Inl e \<Rightarrow> Inl e
         | Inr (Some parsedResource) \<Rightarrow>
             Inr (cfg\<lparr>
               baseUrl := (if baseUrl' = SUndefined then ref_baseUrl parsedResource else baseUrl cfg),
               portalPrefix :=
                 (if portalPrefix' = SUndefined then Some (ref_portalPrefix parsedResource)
                  else portalPrefix cfg),
               resourceOwnerUsername := Some (ref_resourceOwnerUsername parsedResource),
               resourceId := Some (ref_resourceId parsedResource) \<rparr>)
         | Inr None \<Rightarrow> Inr (cfg\<lparr>resourceOwnerUsername := None, resourceId := None\<rparr>))
      else Inr cfg)"

text \<open>\<open>configure\<close>, the assignments of username, apiKey, baseUrl, portalPrefix and enabled.\<close>

definition configureFields ::
  "config \<Rightarrow> strval \<Rightarrow> strval \<Rightarrow> strval \<Rightarrow> strval \<Rightarrow> jsval \<Rightarrow> config" where
  "configureFields cfg username' apiKey' baseUrl' portalPrefix' enabled' =
     (let c1 = (if username' \<noteq> SUndefined then cfg\<lparr>username := stored username'\<rparr> else cfg);
          c2 = (if apiKey' \<noteq> SUndefined then c1\<lparr>apiKey := stored apiKey'\<rparr> else c1);
          c3 = (if baseUrl' \<noteq> SUndefined
                then c2\<lparr>baseUrl := stripTrailingSlash (toString baseUrl')\<rparr> else c2);
          c4 = (if portalPrefix' \<noteq> SUndefined
                then c3\<lparr>portalPrefix := normalizePortalPrefix portalPrefix'\<rparr> else c3)
      in if enabled' \<noteq> JUndefined then c4\<lparr>enabled := truthy enabled'\<rparr> else c4)"

text \<open>
  \<open>configure\<close>, the cloud level: an explicit value is coerced, which may throw; otherwise
  \<open>debug === true\<close> sets \<open>LEVEL_NAME_TO_NO.DEBUG\<close> unless the level is null.
\<close>

definition configureCloudLevel :: "platform \<Rightarrow> config \<Rightarrow> options \<Rightarrow> error + config" where
  "configureCloudLevel P cfg opts =
     (if o_cloudLevel opts \<noteq> None \<or> o_cloud_level opts \<noteq> None then
        (case coerceCloudLevel P (own (o_cloudLevel opts) (own (o_cloud_level opts) JUndefined)) of
           Inl e \<Rightarrow> Inl e
         | Inr l \<Rightarrow> Inr (cfg\<lparr>cloudLevel := l\<rparr>))
      else if o_debug opts = JBool True \<and> cloudLevel cfg \<noteq> None
        then Inr (cfg\<lparr>cloudLevel := map_of LEVEL_NAME_TO_NO ''DEBUG''\<rparr>)
      else Inr cfg)"

text \<open>\<open>configure\<close>, the assignments of timeoutSeconds, verifySsl and debug.\<close>

definition configureRest :: "config \<Rightarrow> jsval \<Rightarrow> jsval \<Rightarrow> jsval \<Rightarrow> config" where
  "configureRest cfg timeoutSeconds' verifySsl' debug' =
     (let c1 = (if timeoutSeconds' \<noteq> JUndefined
                then cfg\<lparr>timeoutSeconds :=
                       (case timeoutSeconds' of JNum q \<Rightarrow> q | _ \<Rightarrow> timeoutSeconds cfg)\<rparr>
                else cfg);
          c2 = (if verifySsl' \<noteq> JUndefined then c1\<lparr>verifySsl := truthy verifySsl'\<rparr> else c1)
      in if debug' \<noteq> JUndefined then c2\<lparr>debug := truthy debug'\<rparr> else c2)"

text \<open>
  \<open>configure\<close>: the configuration after the call, and the error it threw if it threw one.
  The two refresh hooks that end it change nothing of the configuration and their errors
  are caught.
\<close>

definition configure :: "platform \<Rightarrow> config \<Rightarrow> options \<Rightarrow> config \<times> error option" where
  "configure P cfg opts =
     (let baseUrl' = own (o_baseUrl opts) (o_base_url opts);
          portalPrefix' = own (o_portalPrefix opts) (o_portal_prefix opts)
      in
        case configureResource P cfg (o_resource opts) baseUrl' portalPrefix' of
          Inl e \<Rightarrow> (cfg, Some e)
        | Inr c1 \<Rightarrow>
            (let c2 = configureFields c1 (o_username opts) (own (o_apiKey opts) (o_api_key opts))
                        baseUrl' portalPrefix' (o_enabled opts)
             in
               case configureCloudLevel P c2 opts of
                 Inl e \<Rightarrow> (c2, Some e)
               | Inr c3 \<Rightarrow>
                   (configureRest c3 (own (o_timeoutSeconds opts) (o_timeout_seconds opts))
                      (own (o_verifySsl opts) (o_verify_ssl opts)) (o_debug opts),
                    None)))"


definition resolvedPortalPrefix :: "platform \<Rightarrow> config \<Rightarrow> string" where
  "resolvedPortalPrefix P cfg =
     (case portalPrefix cfg of
        Some p \<Rightarrow> p
      | None \<Rightarrow>
          (case URL P (baseUrl cfg) of
             None \<Rightarrow> []
           | Some parsed \<Rightarrow>
               (case normalizePortalPrefix (SStr (pathname parsed)) of
                  Some (c # cs) \<Rightarrow> c # cs
                | _ \<Rightarrow>
                    (let host' = toLowerCase P (trim (hostname parsed)) in
                     if host' = ''alshival.ai'' \<or> host' = ''www.alshival.ai'' then ''/DevTools''
                     else []))))"

text \<open>
  \<open>buildResourceLogsEndpoint\<close>; \<open>Inl URIError\<close> is the error that \<open>encodeURIComponent\<close>
  throws, which the function does not catch.
\<close>

definition buildResourceLogsEndpoint :: "platform \<Rightarrow> config \<Rightarrow> string \<Rightarrow> string \<Rightarrow> error + string" where
  "buildResourceLogsEndpoint P cfg username' resourceId' =
     (let base =
            (case URL P (if baseUrl cfg = [] then DEFAULT_BASE_URL else baseUrl cfg) of
               Some parsed \<Rightarrow> protocol parsed @ ''//'' @ host parsed
             | None \<Rightarrow> DEFAULT_BASE_URL);
          portalPrefix' = resolvedPortalPrefix P cfg
      in
        case encodeURIComponent (trim username') of
          None \<Rightarrow> Inl URIError
        | Some safeUser \<Rightarrow>
            (case encodeURIComponent (trim resourceId') of
               None \<Rightarrow> Inl URIError
             | Some safeResource \<Rightarrow>
                 Inr (base @ portalPrefix' @ ''/u/'' @ safeUser @ ''/resources/'' @ safeResource
                      @ ''/logs/'')))"

section \<open>Handlers and the logger (logger.js)\<close>

text \<open>
  The values that a record carries in its field \<open>extra\<close>: a value that is not an object,
  or a reference to an object of the heap. An object of the heap is an array of values or a
  plain object, the list of its own enumerable properties in order; an object may hold a
  reference to itself.
\<close>

datatype val = Prim jsval | Ref nat

datatype object = Array "val list" | Object "(string \<times> val) list"

type_synonym heap = "nat \<Rightarrow> object"

text \<open>What \<open>safeValue\<close> builds: a tree of fresh arrays and objects.\<close>

datatype json =
    JsonPrim jsval
  | JsonArray "json list"
  | JsonObject "(string \<times> json) list"

text \<open>\<open>Boolean(v)\<close>: an object is truthy.\<close>

fun truthyVal :: "val \<Rightarrow> bool" where
  "truthyVal (Prim v) = truthy v"
| "truthyVal (Ref a) = True"

text \<open>All the results of a list of calls, or \<open>None\<close> when one of them threw.\<close>

fun allResults :: "'a option list \<Rightarrow> 'a list option" where
  "allResults [] = Some []"
| "allResults (None # rs) = None"
| "allResults (Some x # rs) = map_option ((#) x) (allResults rs)"

text \<open>
  \<open>safeValue\<close>, with the number of nested calls the stack still has room for: \<open>None\<close> is
  the RangeError of a call that finds the stack full, as happens on an object that
  contains itself. A value that is neither null, undefined, a string, a number, a boolean
  nor an object (a function, a symbol, a BigInt) becomes \<open>String(value)\<close>.
\<close>

fun safeValue :: "heap \<Rightarrow> nat \<Rightarrow> val \<Rightarrow> json option" where
  "safeValue H 0 v = None"
| "safeValue H (Suc n) (Prim v) =
     Some (case v of JOther str throws truth \<Rightarrow> JsonPrim (JStr str) | _ \<Rightarrow> JsonPrim v)"
| "safeValue H (Suc n) (Ref a) =
     (case H a of
        Array items \<Rightarrow> map_option JsonArray (allResults (map (safeValue H n) items))
      | Object entries \<Rightarrow>
          map_option JsonObject
            (allResults (map (\<lambda>(key, item). map_option (Pair key) (safeValue H n item)) entries)))"

text \<open>
  A cloud handler: its bound resource id and cloud level (null or a value) and the flag
  \<open>_inEmit\<close>.
\<close>

record handler =
  h_resourceId :: "string option"
  h_cloudLevel :: "int option"
  inEmit :: bool

text \<open>The constructor of \<open>CloudLogHandler\<close>, after the defaults of its options.\<close>

definition CloudLogHandler :: "string option \<Rightarrow> int option \<Rightarrow> handler" where
  "CloudLogHandler resourceId' cloudLevel' =
     \<lparr>h_resourceId = resourceId', h_cloudLevel = cloudLevel', inEmit = False\<rparr>"

text \<open>
  A log record, with the fields that the forwarding decision, the head of the payload and
  \<open>safeValue\<close> read; \<open>alshival_resource_id\<close> is \<open>None\<close> when the record has none.
\<close>

record log_record =
  name :: string
  levelno :: int
  levelname :: string
  message :: string
  extra :: val
  alshival_resource_id :: "string option"

record log_entry =
  level :: string
  log_message :: string
  logger :: string
  entry_extra :: json

text \<open>
  The payload of a request, without the fields that are copied from the record as they are
  and the ones the program reads from its surroundings (the SDK version, the time stamp).
\<close>

record payload =
  resource_id :: string
  sdk :: string
  logs :: "log_entry list"

text \<open>The argument of one call of the transport.\<close>

record request =
  url :: string
  payload :: payload
  headers :: "(string \<times> string) list"
  req_timeoutSeconds :: rat
  req_verifySsl :: bool

text \<open>\<open>!v\<close> is false for a string that is not empty, and true for null and for \<open>''\<close>.\<close>

definition present :: "string option \<Rightarrow> bool" where
  "present v = (case v of None \<Rightarrow> False | Some s \<Rightarrow> s \<noteq> [])"

text \<open>\<open>v || ''\<close>.\<close>

definition orEmpty :: "string option \<Rightarrow> string" where
  "orEmpty v = (case v of None \<Rightarrow> [] | Some s \<Rightarrow> s)"

definition shouldForward :: "config \<Rightarrow> handler \<Rightarrow> log_record \<Rightarrow> bool" where
  "shouldForward cfg h record' =
     (if \<not> enabled cfg then False
      else
        (case cloudLevel cfg of
           None \<Rightarrow> False
         | Some configLevel \<Rightarrow>
             (let minLevel = (case h_cloudLevel h of Some l \<Rightarrow> l | None \<Rightarrow> configLevel) in
              if levelno record' < minLevel then False
              else if \<not> present (apiKey cfg) then False
              else if \<not> present (username cfg) then False
              else True)))"

text \<open>The loop of \<open>resolvedResourceId\<close> over its candidates.\<close>

fun firstCandidate :: "string option list \<Rightarrow> string" where
  "firstCandidate [] = []"
| "firstCandidate (v # vs) =
     (if present v \<and> trim (orEmpty v) \<noteq> [] then trim (orEmpty v) else firstCandidate vs)"

definition resolvedResourceId :: "config \<Rightarrow> handler \<Rightarrow> log_record \<Rightarrow> string" where
  "resolvedResourceId cfg h record' =
     firstCandidate [h_resourceId h, alshival_resource_id record', resourceId cfg]"

text \<open>
  \<open>safeValue(record.extra || {})\<close>: the fresh object \<open>{}\<close> has no property, so that
  \<open>safeValue\<close> reads nothing of the heap on it.
\<close>

definition safeExtra :: "platform \<Rightarrow> heap \<Rightarrow> log_record \<Rightarrow> json option" where
  "safeExtra P H record' =
     (if truthyVal (extra record') then safeValue H (stackDepth P) (extra record')
      else safeValue (\<lambda>a. Object []) (stackDepth P) (Ref 0))"

text \<open>
  The request that \<open>emit\<close> builds between its test of the resource and its call of the
  transport, or the error that building it throws.
\<close>

definition buildRequest ::
  "platform \<Rightarrow> heap \<Rightarrow> config \<Rightarrow> log_record \<Rightarrow> string \<Rightarrow> error + request" where
  "buildRequest P H cfg record' resolvedResource =
     (case safeExtra P H record' of
        None \<Rightarrow> Inl RangeError
      | Some extra' \<Rightarrow>
          (let resourceOwner =
                 trim (if present (resourceOwnerUsername cfg)
                       then orEmpty (resourceOwnerUsername cfg) else orEmpty (username cfg))
           in
             case buildResourceLogsEndpoint P cfg resourceOwner resolvedResource of
               Inl e \<Rightarrow> Inl e
             | Inr endpoint \<Rightarrow>
                 Inr \<lparr> url = endpoint,
                       payload = \<lparr>
                         resource_id = resolvedResource,
                         sdk = ''alshival-nodejs'',
                         logs = [\<lparr>
                           level = toLowerCase P (if levelname record' = [] then ''INFO''
                                                   else levelname record'),
                           log_message = message record',
                           logger = (if name record' = [] then ''alshival'' else name record'),
                           entry_extra = extra' \<rparr>] \<rparr>,
                       headers =
                         (''x-api-key'', orEmpty (apiKey cfg)) #
                         (if present (username cfg)
                          then [(''x-user-username'', orEmpty (username cfg))] else []),
                       req_timeoutSeconds = timeoutSeconds cfg,
                       req_verifySsl = verifySsl cfg \<rparr>))"

text \<open>
  \<open>CloudLogHandler.emit\<close>: the handler after the call and the calls of the transport it
  made. The transport is called once, with the request, and what it returns is only
  logged. An error thrown while the request is built is caught and only logged: then the
  transport is not called.
\<close>

definition emit ::
  "platform \<Rightarrow> heap \<Rightarrow> config \<Rightarrow> handler \<Rightarrow> log_record \<Rightarrow> handler \<times> request list" where
  "emit P H cfg h record' =
     (if inEmit h then (h, [])
      else
        (h\<lparr>inEmit := False\<rparr>,
         if \<not> shouldForward cfg h record' then []
         else
           (let resolvedResource = resolvedResourceId cfg h record' in
            if resolvedResource = [] then []
            else
              (case buildRequest P H cfg record' resolvedResource of
                 Inl e \<Rightarrow> []
               | Inr request' \<Rightarrow> [request']))))"

text \<open>
  \<open>dedupeAddHandler\<close> on the list of a target's handlers: the list after the call and the
  position of the handler the call returns.
\<close>

fun dedupeAddHandler :: "handler list \<Rightarrow> handler \<Rightarrow> handler list \<times> nat" where
  "dedupeAddHandler [] h = ([h], 0)"
| "dedupeAddHandler (existing # rest) h =
     (if h_resourceId existing = h_resourceId h then
        ((if h_cloudLevel h \<noteq> None then existing\<lparr>h_cloudLevel := h_cloudLevel h\<rparr>
          else existing) # rest, 0)
      else (case dedupeAddHandler rest h of (hs, i) \<Rightarrow> (existing # hs, Suc i)))"

text \<open>\<open>normalizedLevelNo\<close>.\<close>

definition normalizedLevelNo :: "platform \<Rightarrow> jsval \<Rightarrow> error + int option" where
  "normalizedLevelNo P v = coerceLevel P v"

text \<open>
  \<open>AlshivalLogger.attach\<close> on a target that is an \<open>AlshivalLogger\<close>, given as its list of
  handlers; \<open>resourceId'\<close> is the option after its default null.
\<close>

definition attach ::
  "platform \<Rightarrow> handler list \<Rightarrow> jsval \<Rightarrow> jsval \<Rightarrow> string option \<Rightarrow> error + handler list \<times> nat" where
  "attach P target level' cloudLevel' resourceId' =
     (let resolved = (if cloudLevel' \<noteq> JUndefined then cloudLevel' else level') in
      case (if resolved = JUndefined then Inr None else normalizedLevelNo P resolved) of
        Inl e \<Rightarrow> Inl e
      | Inr normalizedCloudLevel \<Rightarrow>
          Inr (dedupeAddHandler target (CloudLogHandler resourceId' normalizedCloudLevel)))"

text \<open>
  The loop of \<open>AlshivalLogger.emit\<close> over the handlers: the handlers after the call and all
  the calls of the transport, in order.
\<close>

fun emitAll ::
  "platform \<Rightarrow> heap \<Rightarrow> config \<Rightarrow> handler list \<Rightarrow> log_record \<Rightarrow> handler list \<times> request list" where
  "emitAll P H cfg [] record' = ([], [])"
| "emitAll P H cfg (h # hs) record' =
     (case emit P H cfg h record' of
        (h', calls) \<Rightarrow>
          (case emitAll P H cfg hs record' of (hs', calls') \<Rightarrow> (h' # hs', calls @ calls')))"

section \<open>A platform for concrete inputs\<close>

text \<open>
  \<open>simpleURL\<close> accepts the scheme http or https, a host made of labels of lowercase
  letters separated by single dots, and a path over letters, digits, \<open>-\<close>, \<open>_\<close>, \<open>~\<close>,
  \<open>%\<close> and \<open>/\<close> in which no \<open>%\<close> begins the escape of a dot, without a port, query or
  fragment. On such a string the platform's constructor returns the same fields (the path
  \<open>/\<close> for an empty one). Every other string is rejected here, though the platform
  accepts many of them: the general theorems hold for every constructor, and this one only
  evaluates the program at concrete inputs.
\<close>

definition hostChars :: string where
  "hostChars = ''abcdefghijklmnopqrstuvwxyz''"

definition pathChars :: string where
  "pathChars = ''ABCDEFGHIJKLMNOPQRSTUVWXYZabcdefghijklmnopqrstuvwxyz0123456789-_~%/''"

fun dotEscape :: "string \<Rightarrow> bool" where
  "dotEscape [] = False"
| "dotEscape (c # cs) =
     (take 3 (c # cs) = ''%2e'' \<or> take 3 (c # cs) = ''%2E'' \<or> dotEscape cs)"

definition simpleRest :: "string \<Rightarrow> string \<Rightarrow> parsed_url option" where
  "simpleRest scheme rest =
     (let authority = takeWhile (\<lambda>c. c \<noteq> CHR ''/'') rest;
          path = dropWhile (\<lambda>c. c \<noteq> CHR ''/'') rest
      in
        if list_all (\<lambda>label. label \<noteq> [] \<and> list_all (\<lambda>c. c \<in> set hostChars) label)
             (split CHR ''.'' authority)
           \<and> list_all (\<lambda>c. c \<in> set pathChars) path \<and> \<not> dotEscape path
        then Some \<lparr> protocol = scheme, host = authority, hostname = authority,
                    pathname = (if path = [] then ''/'' else path) \<rparr>
        else None)"

definition simpleURL :: "string \<Rightarrow> parsed_url option" where
  "simpleURL raw =
     (if take 8 raw = ''https://'' then simpleRest ''https:'' (drop 8 raw)
      else if take 7 raw = ''http://'' then simpleRest ''http:'' (drop 7 raw)
      else None)"

text \<open>
  The case mappings on the letters A to Z and a to z, which is what the platform's
  mappings do on a string of ASCII characters; every other byte is left as it is.
\<close>

definition upperChar :: "char \<Rightarrow> char" where
  "upperChar c =
     (case map_of (zip ''abcdefghijklmnopqrstuvwxyz'' ''ABCDEFGHIJKLMNOPQRSTUVWXYZ'') c of
        Some u \<Rightarrow> u | None \<Rightarrow> c)"

definition lowerChar :: "char \<Rightarrow> char" where
  "lowerChar c =
     (case map_of (zip ''ABCDEFGHIJKLMNOPQRSTUVWXYZ'' ''abcdefghijklmnopqrstuvwxyz'') c of
        Some l \<Rightarrow> l | None \<Rightarrow> c)"

text \<open>
  \<open>simplePlatform\<close> evaluates the program at concrete inputs whose strings are ASCII, with
  a stack that has room for a hundred nested calls of \<open>safeValue\<close>.
\<close>

definition simplePlatform :: platform where
  "simplePlatform =
     \<lparr> URL = simpleURL, toUpperCase = map upperChar, toLowerCase = map lowerChar,
       stackDepth = 100 \<rparr>"

section \<open>Concrete inputs\<close>

text \<open>
  The configuration that the repository's tests start from (\<open>resetSdkConfig\<close>), an options
  object with no property, the handler of the default logger and a record of \<open>log.info\<close>,
  whose \<open>extra\<close> is an empty object of the heap.
\<close>

definition testConfig :: config where
  "testConfig =
     \<lparr> username = None, resourceOwnerUsername = None, apiKey = None,
       baseUrl = ''https://alshival.ai'', portalPrefix = None, resourceId = None,
       enabled = True, cloudLevel = Some 20, timeoutSeconds = 5, verifySsl = True,
       debug = False \<rparr>"

definition noOptions :: options where
  "noOptions =
     \<lparr> o_username = SUndefined, o_resource = SUndefined, o_apiKey = None,
       o_api_key = SUndefined, o_baseUrl = None, o_base_url = SUndefined,
       o_portalPrefix = None, o_portal_prefix = SUndefined, o_enabled = JUndefined,
       o_cloudLevel = None, o_cloud_level = None, o_timeoutSeconds = None,
       o_timeout_seconds = JUndefined, o_verifySsl = None, o_verify_ssl = JUndefined,
       o_debug = JUndefined \<rparr>"

definition emptyHeap :: heap where
  "emptyHeap a = Object []"

definition infoRecord :: log_record where
  "infoRecord =
     \<lparr> name = ''alshival'', levelno = 20, levelname = ''INFO'', message = ''hello'',
       extra = Ref 0, alshival_resource_id = None \<rparr>"

text \<open>
  A heap whose object 0 has itself as the property \<open>self\<close>, and a record whose \<open>extra\<close> is
  that object.
\<close>

definition cyclicHeap :: heap where
  "cyclicHeap a = Object [(''self'', Ref 0)]"

text \<open>A configuration that forwards: a user, a key and a resource on alshival.dev.\<close>

definition sharedConfig :: config where
  "sharedConfig =
     testConfig \<lparr> username := Some ''viewer-user'', resourceOwnerUsername := Some ''owner-user'',
       apiKey := Some ''k'', baseUrl := ''https://alshival.dev'', portalPrefix := Some [],
       resourceId := Some ''r'' \<rparr>"

text \<open>A configuration whose username has white space around it, and no resource owner.\<close>

definition paddedConfig :: config where
  "paddedConfig =
     testConfig \<lparr> username := Some '' bob '', apiKey := Some ''k'',
       baseUrl := ''https://alshival.dev'' \<rparr>"

text \<open>
  The environment of the repository's test of a resource URL beside a base URL, and the
  options of a call that only sets \<open>debug: true\<close>.
\<close>

definition conflictEnv :: environment where
  "conflictEnv n =
     (if n = ''ALSHIVAL_BASE_URL'' then Some ''https://alshival.ai''
      else if n = ''ALSHIVAL_RESOURCE''
        then Some ''https://alshival.dev/u/owner-user/resources/r-123/''
      else None)"

definition debugOptions :: options where
  "debugOptions = noOptions \<lparr>o_debug := JBool True\<rparr>"

text \<open>
  A resource reference whose owner segment is not a well-formed escape: the constructor
  of URLs accepts it, and \<open>decodeURIComponent\<close> throws on the segment.
\<close>

definition malformedResource :: string where
  "malformedResource = ''https://host/u/%zz/resources/r''"

section \<open>Verified properties\<close>

subsection \<open>White space\<close>

lemma whiteSpace_nonempty: "[] \<notin> set whiteSpace"
  by (simp add: whiteSpace_def)

lemma rev_whiteSpace_nonempty: "[] \<notin> set (map rev whiteSpace)"
  by (simp add: whiteSpace_def)

lemma leading_zero_iff:
  assumes "[] \<notin> set ws"
  shows "leading ws s = 0 \<longleftrightarrow> (\<forall>w \<in> set ws. take (length w) s \<noteq> w)"
proof (cases "List.find (\<lambda>w. take (length w) s = w) ws")
  case None
  then have "\<forall>w \<in> set ws. take (length w) s \<noteq> w" by (simp add: find_None_iff)
  moreover from None have "leading ws s = 0" by (simp add: leading_def)
  ultimately show ?thesis by simp
next
  case (Some w)
  then have "w \<in> set ws" "take (length w) s = w"
    by (auto simp: find_Some_iff)
  with assms Some show ?thesis by (auto simp: leading_def)
qed

lemma stripLeading_stripped:
  "stripLeading ws s = [] \<or> leading ws (stripLeading ws s) = 0"
proof (induction ws s rule: stripLeading.induct)
  case (1 ws s)
  show ?case
  proof (cases "s = [] \<or> leading ws s = 0")
    case True
    then show ?thesis by (subst (1 2) stripLeading.simps) auto
  next
    case False
    with 1 show ?thesis by (subst (1 2) stripLeading.simps) simp
  qed
qed

lemma stripLeading_fixed: "s = [] \<or> leading ws s = 0 \<Longrightarrow> stripLeading ws s = s"
  by (subst stripLeading.simps) simp

lemma stripLeading_suffix: "\<exists>p. s = p @ stripLeading ws s"
proof (induction ws s rule: stripLeading.induct)
  case (1 ws s)
  show ?case
  proof (cases "s = [] \<or> leading ws s = 0")
    case True
    then show ?thesis by (subst stripLeading.simps) simp
  next
    case False
    with 1 obtain p where p: "drop (leading ws s) s = p @ stripLeading ws (drop (leading ws s) s)"
      by blast
    have "s = take (leading ws s) s @ drop (leading ws s) s" by simp
    with p have "s = (take (leading ws s) s @ p) @ stripLeading ws (drop (leading ws s) s)"
      by simp
    moreover from False have "stripLeading ws s = stripLeading ws (drop (leading ws s) s)"
      by (subst stripLeading.simps) simp
    ultimately show ?thesis by metis
  qed
qed

lemma leading_prefix:
  assumes ws: "[] \<notin> set ws" and ab: "leading ws (a @ b) = 0"
  shows "leading ws a = 0"
proof -
  have "take (length w) a \<noteq> w" if w: "w \<in> set ws" for w
  proof
    assume eq: "take (length w) a = w"
    then have "length (take (length w) a) = length w" by simp
    then have "length w \<le> length a" by simp
    with eq have "take (length w) (a @ b) = w" by simp
    moreover from ab ws w have "take (length w) (a @ b) \<noteq> w"
      by (simp add: leading_zero_iff del: take_append)
    ultimately show False by simp
  qed
  with ws show ?thesis by (simp add: leading_zero_iff)
qed

lemma trim_Nil: "trim [] = []"
  by (simp add: trim_def stripLeading_fixed)

lemma trim_idem: "trim (trim s) = trim s"
proof -
  define t where "t = stripLeading whiteSpace s"
  define u where "u = stripLeading (map rev whiteSpace) (rev t)"
  have trim: "trim s = rev u" by (simp add: trim_def t_def u_def)
  have u: "stripLeading (map rev whiteSpace) u = u"
    unfolding u_def using stripLeading_stripped [of "map rev whiteSpace" "rev t"]
    by (intro stripLeading_fixed) blast
  obtain p where p: "rev t = p @ u"
    unfolding u_def using stripLeading_suffix [of "rev t" "map rev whiteSpace"] by blast
  then have t: "t = rev u @ rev p" by (metis rev_append rev_rev_ident)
  have "rev u = [] \<or> leading whiteSpace (rev u) = 0"
  proof (cases "rev u = []")
    case True
    then show ?thesis by simp
  next
    case False
    with t have "t \<noteq> []" by simp
    then have "leading whiteSpace t = 0"
      unfolding t_def using stripLeading_stripped [of whiteSpace s] by blast
    with t show ?thesis using leading_prefix [OF whiteSpace_nonempty, of "rev u" "rev p"] by simp
  qed
  then have "stripLeading whiteSpace (rev u) = rev u" by (rule stripLeading_fixed)
  then have "trim (rev u) = rev u" by (simp add: trim_def u)
  with trim show ?thesis by simp
qed

text \<open>A string that starts and ends with bytes that no white space starts or ends with.\<close>

lemma leading_head:
  assumes "[] \<notin> set ws" and "s \<noteq> []" and "hd s \<notin> hd ` set ws"
  shows "leading ws s = 0"
proof -
  have "take (length w) s \<noteq> w" if w: "w \<in> set ws" for w
  proof
    assume eq: "take (length w) s = w"
    from w assms(1) have "w \<noteq> []" by auto
    with eq assms(2) have "hd s = hd w"
      by (metis hd_take length_greater_0_conv)
    with w assms(3) show False by blast
  qed
  with assms(1) show ?thesis by (simp add: leading_zero_iff)
qed

lemma trim_unchanged:
  assumes "s \<noteq> []" and "startsWord (hd s)" and "endsWord (last s)"
  shows "trim s = s"
proof -
  have "leading whiteSpace s = 0"
    using assms leading_head [OF whiteSpace_nonempty, of s] by (simp add: startsWord_def)
  then have a: "stripLeading whiteSpace s = s" by (simp add: stripLeading_fixed)
  have "leading (map rev whiteSpace) (rev s) = 0"
    using assms leading_head [OF rev_whiteSpace_nonempty, of "rev s"]
    by (simp add: endsWord_def hd_rev)
  then have "stripLeading (map rev whiteSpace) (rev s) = rev s" by (simp add: stripLeading_fixed)
  with a show ?thesis by (simp add: trim_def)
qed

lemma startsWord_h: "startsWord CHR ''h''"
  by (simp add: startsWord_def whiteSpace_def)

lemma endsWord_slash: "endsWord CHR ''/''"
  by (simp add: endsWord_def whiteSpace_def)

subsection \<open>The portal prefix\<close>

lemma stripSlashes_Nil: "stripSlashes [] = []"
  by (simp add: stripSlashes_def)

lemma normalizePortalPrefix_string:
  "normalizePortalPrefix (SStr s) =
     Some (if stripSlashes (trim s) = [] then [] else CHR ''/'' # stripSlashes (trim s))"
proof (cases "trim s = []")
  case True
  then show ?thesis
    by (simp add: normalizePortalPrefix_def stripSlashes_Nil)
next
  case False
  then show ?thesis
    by (simp add: normalizePortalPrefix_def Let_def)
qed

text \<open>
  C8, amended. \<open>resolvedPortalPrefix\<close> returns the stored prefix as it is, the empty
  string included, whenever it is not null. Otherwise, when the base URL parses, it returns
  the prefix normalised from the base URL's own path when that is not empty, and else
  \<open>/DevTools\<close> exactly when the host name, trimmed and in lower case, is \<open>alshival.ai\<close> or
  \<open>www.alshival.ai\<close>, and the empty string for every other host; when the base URL does
  not parse it returns the empty string.
\<close>

theorem resolvedPortalPrefix_cases:
  "(portalPrefix cfg = Some p \<longrightarrow> resolvedPortalPrefix P cfg = p)
   \<and> (portalPrefix cfg = None \<and> URL P (baseUrl cfg) = None \<longrightarrow> resolvedPortalPrefix P cfg = [])
   \<and> (portalPrefix cfg = None \<and> URL P (baseUrl cfg) = Some parsed
        \<and> stripSlashes (trim (pathname parsed)) \<noteq> [] \<longrightarrow>
        resolvedPortalPrefix P cfg = CHR ''/'' # stripSlashes (trim (pathname parsed)))
   \<and> (portalPrefix cfg = None \<and> URL P (baseUrl cfg) = Some parsed
        \<and> stripSlashes (trim (pathname parsed)) = [] \<longrightarrow>
        resolvedPortalPrefix P cfg =
          (if toLowerCase P (trim (hostname parsed)) \<in> {''alshival.ai'', ''www.alshival.ai''}
           then ''/DevTools'' else []))"
  by (simp add: resolvedPortalPrefix_def normalizePortalPrefix_string)

theorem resolvedPortalPrefix_cases_witness:
  "resolvedPortalPrefix simplePlatform (testConfig \<lparr>baseUrl := ''https://alshival.ai''\<rparr>) = ''/DevTools''
   \<and> resolvedPortalPrefix simplePlatform (testConfig \<lparr>baseUrl := ''https://alshival.dev''\<rparr>) = []
   \<and> resolvedPortalPrefix simplePlatform
        (testConfig \<lparr>baseUrl := ''https://alshival.ai'', portalPrefix := Some []\<rparr>) = []
   \<and> resolvedPortalPrefix simplePlatform (testConfig \<lparr>baseUrl := ''https://alshival.dev/Portal/''\<rparr>)
        = ''/Portal''
   \<and> resolvedPortalPrefix simplePlatform (testConfig \<lparr>baseUrl := ''alshival.ai''\<rparr>) = []"
proof -
  have u: "simpleURL ''https://alshival.ai'' =
             Some \<lparr>protocol = ''https:'', host = ''alshival.ai'', hostname = ''alshival.ai'',
                   pathname = ''/''\<rparr>"
    "simpleURL ''https://alshival.dev'' =
             Some \<lparr>protocol = ''https:'', host = ''alshival.dev'', hostname = ''alshival.dev'',
                   pathname = ''/''\<rparr>"
    "simpleURL ''https://alshival.dev/Portal/'' =
             Some \<lparr>protocol = ''https:'', host = ''alshival.dev'', hostname = ''alshival.dev'',
                   pathname = ''/Portal/''\<rparr>"
    "simpleURL ''alshival.ai'' = None"
    by code_simp+
  have s: "stripSlashes (trim ''/'') = []" "stripSlashes (trim ''/Portal/'') = ''Portal''"
    "toLowerCase simplePlatform (trim ''alshival.ai'') = ''alshival.ai''"
    "toLowerCase simplePlatform (trim ''alshival.dev'') = ''alshival.dev''"
    by code_simp+
  have p: "URL simplePlatform = simpleURL"
    by (simp add: simplePlatform_def)
  have c: "portalPrefix testConfig = None"
    by (simp add: testConfig_def)
  show ?thesis
    using
      resolvedPortalPrefix_cases [of "testConfig \<lparr>baseUrl := ''https://alshival.ai''\<rparr>" "[]" simplePlatform
        "\<lparr>protocol = ''https:'', host = ''alshival.ai'', hostname = ''alshival.ai'', pathname = ''/''\<rparr>"]
      resolvedPortalPrefix_cases [of "testConfig \<lparr>baseUrl := ''https://alshival.dev''\<rparr>" "[]" simplePlatform
        "\<lparr>protocol = ''https:'', host = ''alshival.dev'', hostname = ''alshival.dev'', pathname = ''/''\<rparr>"]
      resolvedPortalPrefix_cases [of "testConfig \<lparr>baseUrl := ''https://alshival.ai'', portalPrefix := Some []\<rparr>"
        "[]" simplePlatform]
      resolvedPortalPrefix_cases [of "testConfig \<lparr>baseUrl := ''https://alshival.dev/Portal/''\<rparr>" "[]" simplePlatform
        "\<lparr>protocol = ''https:'', host = ''alshival.dev'', hostname = ''alshival.dev'', pathname = ''/Portal/''\<rparr>"]
      resolvedPortalPrefix_cases [of "testConfig \<lparr>baseUrl := ''alshival.ai''\<rparr>" "[]" simplePlatform]
    by (simp add: u s c p)
qed

text \<open>
  The claim as it stands fails on the host \<open>www.alshival.ai\<close>, which is not
  \<open>alshival.ai\<close> and still gets \<open>/DevTools\<close>.
\<close>

theorem resolvedPortalPrefix_counterexample:
  "resolvedPortalPrefix simplePlatform (testConfig \<lparr>baseUrl := ''https://www.alshival.ai''\<rparr>)
     = ''/DevTools''
   \<and> map_option hostname (simpleURL ''https://www.alshival.ai'') = Some ''www.alshival.ai''
   \<and> ''www.alshival.ai'' \<noteq> ''alshival.ai''"
  by code_simp

subsection \<open>The configuration from the environment\<close>

text \<open>
  C2, amended. \<open>buildClientConfigFromEnv\<close> reads the resource URL of the environment first
  (\<open>ALSHIVAL_RESOURCE\<close>, or else \<open>ALSHIVAL_RESOURCE_URL\<close>). If it parses, the reference
  supplies the resource owner, the resource id, the base URL and the portal prefix, whatever
  the base URL and the prefix of the environment are. If it is absent or does not parse, owner
  and id are null, the base URL is the one of the environment (or the default) and the prefix
  is the one of the environment, normalised.
\<close>

theorem buildClientConfigFromEnv_resource:
  "(parseResourceReference P
      (case orElse (env ''ALSHIVAL_RESOURCE'') (env ''ALSHIVAL_RESOURCE_URL'') of
         None \<Rightarrow> SUndefined | Some s \<Rightarrow> SStr s) = Inr (Some r)
    \<longrightarrow> (\<exists>c. buildClientConfigFromEnv P env = Inr c
           \<and> resourceOwnerUsername c = Some (ref_resourceOwnerUsername r)
           \<and> resourceId c = Some (ref_resourceId r)
           \<and> baseUrl c = stripTrailingSlash (ref_baseUrl r)
           \<and> portalPrefix c = Some (ref_portalPrefix r)))
   \<and> (parseResourceReference P
        (case orElse (env ''ALSHIVAL_RESOURCE'') (env ''ALSHIVAL_RESOURCE_URL'') of
           None \<Rightarrow> SUndefined | Some s \<Rightarrow> SStr s) = Inr None
      \<longrightarrow> (\<exists>c. buildClientConfigFromEnv P env = Inr c
             \<and> resourceOwnerUsername c = None
             \<and> resourceId c = None
             \<and> baseUrl c =
                 stripTrailingSlash
                   (case orElse (env ''ALSHIVAL_BASE_URL'') None of
                      Some s \<Rightarrow> s | None \<Rightarrow> DEFAULT_BASE_URL)
             \<and> portalPrefix c =
                 normalizePortalPrefix
                   (case env ''ALSHIVAL_PORTAL_PREFIX'' of None \<Rightarrow> SUndefined | Some s \<Rightarrow> SStr s)))"
  by (simp add: buildClientConfigFromEnv_def Let_def)

theorem buildClientConfigFromEnv_resource_witness:
  "\<exists>c. buildClientConfigFromEnv simplePlatform conflictEnv = Inr c
       \<and> resourceOwnerUsername c = Some ''owner-user''
       \<and> resourceId c = Some ''r-123''
       \<and> baseUrl c = ''https://alshival.dev''
       \<and> portalPrefix c = Some []"
proof -
  have p: "parseResourceReference simplePlatform
      (case orElse (conflictEnv ''ALSHIVAL_RESOURCE'') (conflictEnv ''ALSHIVAL_RESOURCE_URL'') of
         None \<Rightarrow> SUndefined | Some s \<Rightarrow> SStr s)
      = Inr (Some \<lparr>ref_baseUrl = ''https://alshival.dev'', ref_portalPrefix = [],
                   ref_resourceOwnerUsername = ''owner-user'', ref_resourceId = ''r-123''\<rparr>)"
    by code_simp
  have s: "stripTrailingSlash ''https://alshival.dev'' = ''https://alshival.dev''"
    by code_simp
  show ?thesis
    using buildClientConfigFromEnv_resource [of simplePlatform conflictEnv
      "\<lparr>ref_baseUrl = ''https://alshival.dev'', ref_portalPrefix = [],
         ref_resourceOwnerUsername = ''owner-user'', ref_resourceId = ''r-123''\<rparr>"]
    by (simp add: p s)
qed

text \<open>
  The claim as it stands fails where both variables are set: the base URL of the
  environment does not win over the one of the resource URL.
\<close>

theorem buildClientConfigFromEnv_counterexample:
  "conflictEnv ''ALSHIVAL_BASE_URL'' = Some ''https://alshival.ai''
   \<and> map_sum id baseUrl (buildClientConfigFromEnv simplePlatform conflictEnv)
       = Inr ''https://alshival.dev''
   \<and> map_sum id baseUrl (buildClientConfigFromEnv simplePlatform conflictEnv)
       \<noteq> Inr ''https://alshival.ai''"
  by code_simp

subsection \<open>Level coercion\<close>

lemma map_of_LEVEL_NAME:
  "map_of LEVEL_NAME_TO_NO t = Some n \<longleftrightarrow> (t, n) \<in> set LEVEL_NAME_TO_NO"
  by (simp add: LEVEL_NAME_TO_NO_def ALERT_LEVEL_def eq_commute [of _ n])

lemma LEVEL_NAME_not_DISABLED:
  "(t, n) \<in> set LEVEL_NAME_TO_NO \<Longrightarrow> t \<notin> set DISABLED_LEVEL_VALUES"
  by (auto simp: LEVEL_NAME_TO_NO_def DISABLED_LEVEL_VALUES_def)

lemma coerceLevel_disabled:
  "toUpperCase P (trim s) \<in> set DISABLED_LEVEL_VALUES \<Longrightarrow> coerceLevel P (JStr s) = Inr None"
  by (simp add: coerceLevelName_def)

lemma coerceLevel_named:
  assumes "(toUpperCase P (trim s), n) \<in> set LEVEL_NAME_TO_NO"
  shows "coerceLevel P (JStr s) = Inr (Some n)"
  using assms LEVEL_NAME_not_DISABLED [OF assms]
  by (simp add: coerceLevelName_def map_of_LEVEL_NAME [symmetric])

lemma coerceLevel_unknown:
  assumes "toUpperCase P (trim s) \<notin> set DISABLED_LEVEL_VALUES"
    and "toUpperCase P (trim s) \<notin> fst ` set LEVEL_NAME_TO_NO"
  shows "coerceLevel P (JStr s) = Inl (InvalidLevel (JStr s))"
proof -
  have "map_of LEVEL_NAME_TO_NO (toUpperCase P (trim s)) = None"
    using assms(2) by (simp add: map_of_eq_None_iff)
  with assms(1) show ?thesis by (simp add: coerceLevelName_def)
qed

lemma LEVEL_NAME_aliases:
  "map_of LEVEL_NAME_TO_NO ''WARN'' = Some 30 \<and> map_of LEVEL_NAME_TO_NO ''WARNING'' = Some 30
   \<and> map_of LEVEL_NAME_TO_NO ''ALERTS'' = Some 45 \<and> map_of LEVEL_NAME_TO_NO ''ALERT'' = Some 45
   \<and> map_of LEVEL_NAME_TO_NO ''FATAL'' = Some 50 \<and> map_of LEVEL_NAME_TO_NO ''CRITICAL'' = Some 50"
  by (simp add: LEVEL_NAME_TO_NO_def ALERT_LEVEL_def)

lemma coerceCloudLevel_nonstring:
  "\<forall>s. v \<noteq> JStr s \<Longrightarrow> coerceCloudLevel P v = Inl (invalidLevel v)"
  by (cases v) auto

lemma invalidLevel_serialisable:
  "\<forall>str truth. v \<noteq> JOther str True truth \<Longrightarrow> invalidLevel v = InvalidLevel v"
  by (cases v) auto

lemma coerceCloudLevel_Some:
  "coerceCloudLevel P (JStr s) = Inr (Some n) \<longleftrightarrow>
     (toUpperCase P (trim s), n) \<in>
       {(''ALERT'', 45), (''ERROR'', 40), (''WARNING'', 30), (''INFO'', 20), (''DEBUG'', 10)}"
  by (auto simp: CLOUD_LEVEL_NAME_TO_NO_def ALERT_LEVEL_def Let_def split: if_splits)

lemma coerceCloudLevel_None:
  "coerceCloudLevel P (JStr s) = Inr None \<longleftrightarrow> toUpperCase P (trim s) = ''NONE''"
  by (auto simp: CLOUD_LEVEL_NAME_TO_NO_def ALERT_LEVEL_def Let_def split: if_splits)

lemma coerceCloudLevel_unknown:
  "toUpperCase P (trim s) \<notin> {''NONE'', ''ALERT'', ''ERROR'', ''WARNING'', ''INFO'', ''DEBUG''} \<Longrightarrow>
     coerceCloudLevel P (JStr s) = Inl (InvalidLevel (JStr s))"
  by (simp add: CLOUD_LEVEL_NAME_TO_NO_def Let_def)

text \<open>
  C6. The name of a string is the string trimmed and mapped to upper case, as the platform
  does both. \<open>coerceLevel\<close> returns null for null and for false, the integer that
  \<open>Math.trunc\<close> gives for a finite number, null for a string whose name is a disable token,
  the number of the table for a string whose name is in the table (where WARN and WARNING
  are 30, ALERTS and ALERT 45, FATAL and CRITICAL 50), and throws the error of an invalid
  level for true and for any other string. \<open>coerceCloudLevel\<close> returns null exactly for the
  strings whose name is NONE, returns a number exactly for the strings whose name is one of
  ALERT, ERROR, WARNING, INFO and DEBUG, the number of the table, and throws the error of
  an invalid level for every other string and for every value that is not a string and that
  \<open>JSON.stringify\<close> accepts. For a value that is not a string and on which
  \<open>JSON.stringify\<close> throws, such as a BigInt, the error it throws is not the error of an
  invalid level but the TypeError of \<open>JSON.stringify\<close>.
\<close>

theorem coerce_levels:
  "coerceLevel P JNull = Inr None
   \<and> coerceLevel P (JBool False) = Inr None
   \<and> coerceLevel P (JNum q) = Inr (Some (trunc q))
   \<and> (toUpperCase P (trim s1) \<in> set DISABLED_LEVEL_VALUES \<longrightarrow> coerceLevel P (JStr s1) = Inr None)
   \<and> ((toUpperCase P (trim s2), n2) \<in> set LEVEL_NAME_TO_NO
        \<longrightarrow> coerceLevel P (JStr s2) = Inr (Some n2))
   \<and> map_of LEVEL_NAME_TO_NO ''WARN'' = Some 30 \<and> map_of LEVEL_NAME_TO_NO ''WARNING'' = Some 30
   \<and> map_of LEVEL_NAME_TO_NO ''ALERTS'' = Some 45 \<and> map_of LEVEL_NAME_TO_NO ''ALERT'' = Some 45
   \<and> map_of LEVEL_NAME_TO_NO ''FATAL'' = Some 50 \<and> map_of LEVEL_NAME_TO_NO ''CRITICAL'' = Some 50
   \<and> coerceLevel P (JBool True) = Inl (InvalidLevel (JBool True))
   \<and> (toUpperCase P (trim s3) \<notin> set DISABLED_LEVEL_VALUES
        \<and> toUpperCase P (trim s3) \<notin> fst ` set LEVEL_NAME_TO_NO
        \<longrightarrow> coerceLevel P (JStr s3) = Inl (InvalidLevel (JStr s3)))
   \<and> ((\<forall>s. v \<noteq> JStr s) \<and> (\<forall>str truth. v \<noteq> JOther str True truth)
        \<longrightarrow> coerceCloudLevel P v = Inl (InvalidLevel v))
   \<and> coerceCloudLevel P (JOther str True truth) = Inl TypeError
   \<and> (coerceCloudLevel P (JStr s4) = Inr None \<longleftrightarrow> toUpperCase P (trim s4) = ''NONE'')
   \<and> (coerceCloudLevel P (JStr s5) = Inr (Some n5) \<longleftrightarrow>
        (toUpperCase P (trim s5), n5) \<in>
          {(''ALERT'', 45), (''ERROR'', 40), (''WARNING'', 30), (''INFO'', 20), (''DEBUG'', 10)})
   \<and> (toUpperCase P (trim s6) \<notin> {''NONE'', ''ALERT'', ''ERROR'', ''WARNING'', ''INFO'', ''DEBUG''}
        \<longrightarrow> coerceCloudLevel P (JStr s6) = Inl (InvalidLevel (JStr s6)))"
proof -
  have nonstring: "coerceCloudLevel P v = Inl (InvalidLevel v)"
    if "(\<forall>s. v \<noteq> JStr s) \<and> (\<forall>str truth. v \<noteq> JOther str True truth)"
    using that coerceCloudLevel_nonstring [of v P] invalidLevel_serialisable [of v] by simp
  show ?thesis
    using coerceLevel_disabled [of P s1] coerceLevel_named [of P s2 n2] LEVEL_NAME_aliases
      coerceLevel_unknown [of P s3] nonstring coerceCloudLevel_None [of P s4]
      coerceCloudLevel_Some [of P s5 n5] coerceCloudLevel_unknown [of P s6]
    by simp
qed

theorem coerce_levels_witness:
  "coerceLevel simplePlatform (JNum (- 7 / 2)) = Inr (Some (- 3))
   \<and> coerceLevel simplePlatform (JStr ''Off'') = Inr None
   \<and> coerceLevel simplePlatform (JStr '' fatal '') = Inr (Some 50)
   \<and> coerceLevel simplePlatform (JStr ''loud'') = Inl (InvalidLevel (JStr ''loud''))
   \<and> coerceCloudLevel simplePlatform (JNum 20) = Inl (InvalidLevel (JNum 20))
   \<and> coerceCloudLevel simplePlatform (JBool False) = Inl (InvalidLevel (JBool False))
   \<and> coerceCloudLevel simplePlatform (JOther ''10'' True True) = Inl TypeError
   \<and> coerceCloudLevel simplePlatform (JStr ''none'') = Inr None
   \<and> coerceCloudLevel simplePlatform (JStr ''Error'') = Inr (Some 40)
   \<and> coerceCloudLevel simplePlatform (JStr ''ALERTS'') = Inl (InvalidLevel (JStr ''ALERTS''))"
proof -
  have h1: "toUpperCase simplePlatform (trim ''Off'') \<in> set DISABLED_LEVEL_VALUES" by code_simp
  have h2: "(toUpperCase simplePlatform (trim '' fatal ''), 50) \<in> set LEVEL_NAME_TO_NO"
    by code_simp
  have h3: "toUpperCase simplePlatform (trim ''loud'') \<notin> set DISABLED_LEVEL_VALUES
            \<and> toUpperCase simplePlatform (trim ''loud'') \<notin> fst ` set LEVEL_NAME_TO_NO"
    by code_simp
  have h4: "toUpperCase simplePlatform (trim ''none'') = ''NONE''" by code_simp
  have h5: "(toUpperCase simplePlatform (trim ''Error''), 40) \<in>
     {(''ALERT'', 45), (''ERROR'', 40), (''WARNING'', 30), (''INFO'', 20), (''DEBUG'', 10 :: int)}"
    by code_simp
  have h6: "toUpperCase simplePlatform (trim ''ALERTS'')
              \<notin> {''NONE'', ''ALERT'', ''ERROR'', ''WARNING'', ''INFO'', ''DEBUG''}"
    by code_simp
  have h7: "trunc (- 7 / 2) = - 3" by code_simp
  have h8: "(\<forall>s. JNum 20 \<noteq> JStr s) \<and> (\<forall>str truth. JNum 20 \<noteq> JOther str True truth)"
    "(\<forall>s. JBool False \<noteq> JStr s) \<and> (\<forall>str truth. JBool False \<noteq> JOther str True truth)"
    by simp_all
  show ?thesis
    using coerce_levels [of simplePlatform "- 7 / 2" "''Off''" "'' fatal ''" 50 "''loud''"
        "JNum 20" "''10''" True "''none''" "''Error''" 40 "''ALERTS''"]
      coerce_levels [of simplePlatform 0 "''Off''" "'' fatal ''" 50 "''loud''"
        "JBool False" "''10''" True "''none''" "''Error''" 40 "''ALERTS''"]
      h1 h2 h3 h4 h5 h6 h7 h8
    by simp
qed

subsection \<open>The forwarding decision\<close>

lemma firstCandidate_trimmed: "trim (firstCandidate vs) = firstCandidate vs"
  by (induction vs) (simp_all add: trim_Nil trim_idem)

lemma present_trim: "(present v \<and> trim (orEmpty v) \<noteq> []) = (trim (orEmpty v) \<noteq> [])"
  by (cases v) (auto simp: present_def orEmpty_def trim_Nil)

lemma resolvedResourceId_trimmed:
  "trim (resolvedResourceId cfg h r) = resolvedResourceId cfg h r"
  by (simp add: resolvedResourceId_def firstCandidate_trimmed del: firstCandidate.simps)

lemma present_Some: "present v \<Longrightarrow> \<exists>s. v = Some s \<and> s \<noteq> [] \<and> orEmpty v = s"
  by (cases v) (simp_all add: present_def orEmpty_def)

lemma emit_inEmit: "fst (emit P H cfg (CloudLogHandler rid lvl) r) = CloudLogHandler rid lvl"
  by (simp add: emit_def CloudLogHandler_def)

lemma shouldForward_iff:
  "shouldForward cfg h r \<longleftrightarrow>
     enabled cfg
     \<and> (\<exists>c. cloudLevel cfg = Some c \<and> (case h_cloudLevel h of Some l \<Rightarrow> l | None \<Rightarrow> c) \<le> levelno r)
     \<and> present (apiKey cfg) \<and> present (username cfg)"
  by (auto simp: shouldForward_def Let_def split: option.splits)

lemma emit_length: "length (snd (emit P H cfg h r)) \<le> 1"
  by (simp add: emit_def Let_def split: sum.splits)

lemma emit_cases:
  "\<not> inEmit h \<Longrightarrow>
     snd (emit P H cfg h r) =
       (if shouldForward cfg h r \<and> resolvedResourceId cfg h r \<noteq> [] then
          (case buildRequest P H cfg r (resolvedResourceId cfg h r) of
             Inl e \<Rightarrow> [] | Inr request' \<Rightarrow> [request'])
        else [])"
  by (simp add: emit_def Let_def)

lemma encodeURIComponent_Some:
  "(\<exists>e. encodeURIComponent s = Some e) \<longleftrightarrow> \<not> loneSurrogate s"
  by (simp add: encodeURIComponent_def)

lemma buildResourceLogsEndpoint_Inr:
  "(\<exists>endpoint. buildResourceLogsEndpoint P cfg u i = Inr endpoint) \<longleftrightarrow>
     \<not> loneSurrogate (trim u) \<and> \<not> loneSurrogate (trim i)"
  by (simp add: buildResourceLogsEndpoint_def Let_def encodeURIComponent_def)

lemma buildRequest_Inr:
  "(\<exists>request'. buildRequest P H cfg r i = Inr request') \<longleftrightarrow>
     safeExtra P H r \<noteq> None
     \<and> \<not> loneSurrogate
           (trim (if present (resourceOwnerUsername cfg)
                  then orEmpty (resourceOwnerUsername cfg) else orEmpty (username cfg)))
     \<and> \<not> loneSurrogate (trim i)"
proof (cases "safeExtra P H r")
  case None
  then show ?thesis by (simp add: buildRequest_def)
next
  case (Some extra')
  let ?owner = "trim (if present (resourceOwnerUsername cfg)
                  then orEmpty (resourceOwnerUsername cfg) else orEmpty (username cfg))"
  have "(\<exists>request'. buildRequest P H cfg r i = Inr request') \<longleftrightarrow>
          (\<exists>endpoint. buildResourceLogsEndpoint P cfg ?owner i = Inr endpoint)"
    using Some by (auto simp: buildRequest_def Let_def split: sum.splits)
  then show ?thesis
    using Some by (simp add: buildResourceLogsEndpoint_Inr trim_idem)
qed

lemma emit_nonempty_iff:
  assumes "\<not> inEmit h"
  shows "snd (emit P H cfg h r) \<noteq> [] \<longleftrightarrow>
     shouldForward cfg h r \<and> resolvedResourceId cfg h r \<noteq> []
     \<and> safeExtra P H r \<noteq> None
     \<and> \<not> loneSurrogate
           (trim (if present (resourceOwnerUsername cfg)
                  then orEmpty (resourceOwnerUsername cfg) else orEmpty (username cfg)))
     \<and> \<not> loneSurrogate (resolvedResourceId cfg h r)"
proof -
  have "snd (emit P H cfg h r) \<noteq> [] \<longleftrightarrow>
          shouldForward cfg h r \<and> resolvedResourceId cfg h r \<noteq> []
          \<and> (\<exists>request'. buildRequest P H cfg r (resolvedResourceId cfg h r) = Inr request')"
    using assms by (auto simp: emit_cases split: sum.splits)
  then show ?thesis
    by (simp only: buildRequest_Inr resolvedResourceId_trimmed)
qed

lemma resolvedResourceId_priority:
  "resolvedResourceId cfg h r =
     (if trim (orEmpty (h_resourceId h)) \<noteq> [] then trim (orEmpty (h_resourceId h))
      else if trim (orEmpty (alshival_resource_id r)) \<noteq> []
        then trim (orEmpty (alshival_resource_id r))
      else trim (orEmpty (resourceId cfg)))"
  by (simp add: resolvedResourceId_def present_trim)

text \<open>On an object that has itself as a property, \<open>safeValue\<close> fills any stack.\<close>

lemma safeValue_cyclic:
  "H a = Object [(k, Ref a)] \<Longrightarrow> safeValue H n (Ref a) = None"
  by (induction n) simp_all

lemma safeValue_empty: "H a = Object [] \<Longrightarrow> safeValue H (Suc n) (Ref a) = Some (JsonObject [])"
  by simp

text \<open>
  C1, amended. For every configuration, every handler as its constructor builds it and
  every record, \<open>emit\<close> calls the transport if and only if the six conditions hold and the
  request can be built. The six conditions: enabled is true, the configuration's cloud
  level is not null, the record's level is at least the effective minimum (the handler's
  cloud level if it has one, else the configuration's), the API key is not empty, the
  username is not empty, and a resource id that is not empty resolves; the id is the first
  of the handler's, the record's and the configuration's that is not blank, trimmed. The
  request can be built when \<open>safeValue\<close> returns on the record's \<open>extra\<close> (it throws when
  the nesting of \<open>extra\<close> fills the stack, as on an object that contains itself) and neither
  the trimmed owner or username nor the resource id has a lone surrogate (on which
  \<open>encodeURIComponent\<close> throws). Otherwise there is no call; there is never more than one,
  and the handler is left as it was.
\<close>

theorem forwarding_decision:
  "(snd (emit P H cfg (CloudLogHandler rid lvl) r) \<noteq> [] \<longleftrightarrow>
      enabled cfg
      \<and> (\<exists>c. cloudLevel cfg = Some c \<and> (case lvl of Some l \<Rightarrow> l | None \<Rightarrow> c) \<le> levelno r)
      \<and> present (apiKey cfg)
      \<and> present (username cfg)
      \<and> resolvedResourceId cfg (CloudLogHandler rid lvl) r \<noteq> []
      \<and> safeExtra P H r \<noteq> None
      \<and> \<not> loneSurrogate
            (trim (if present (resourceOwnerUsername cfg)
                   then orEmpty (resourceOwnerUsername cfg) else orEmpty (username cfg)))
      \<and> \<not> loneSurrogate (resolvedResourceId cfg (CloudLogHandler rid lvl) r))
   \<and> length (snd (emit P H cfg (CloudLogHandler rid lvl) r)) \<le> 1
   \<and> resolvedResourceId cfg (CloudLogHandler rid lvl) r =
       (if trim (orEmpty rid) \<noteq> [] then trim (orEmpty rid)
        else if trim (orEmpty (alshival_resource_id r)) \<noteq> []
          then trim (orEmpty (alshival_resource_id r))
        else trim (orEmpty (resourceId cfg)))
   \<and> fst (emit P H cfg (CloudLogHandler rid lvl) r) = CloudLogHandler rid lvl"
proof -
  let ?h = "CloudLogHandler rid lvl"
  have h: "\<not> inEmit ?h" "h_cloudLevel ?h = lvl" "h_resourceId ?h = rid"
    by (simp_all add: CloudLogHandler_def)
  note emit_nonempty_iff [OF h(1), of P H cfg r] shouldForward_iff [of cfg ?h r]
    emit_length [of P H cfg ?h r] resolvedResourceId_priority [of cfg ?h r]
    emit_inEmit [of P H cfg rid lvl r]
  then show ?thesis
    by (simp only: h) blast
qed

theorem forwarding_decision_witness:
  "snd (emit simplePlatform emptyHeap sharedConfig (CloudLogHandler None None) infoRecord) \<noteq> []
   \<and> snd (emit simplePlatform emptyHeap (sharedConfig \<lparr>enabled := False\<rparr>)
            (CloudLogHandler None None) infoRecord) = []
   \<and> snd (emit simplePlatform emptyHeap (sharedConfig \<lparr>cloudLevel := None\<rparr>)
            (CloudLogHandler None (Some 10)) infoRecord) = []
   \<and> snd (emit simplePlatform emptyHeap sharedConfig (CloudLogHandler None (Some 40)) infoRecord) = []
   \<and> snd (emit simplePlatform emptyHeap (sharedConfig \<lparr>apiKey := Some []\<rparr>)
            (CloudLogHandler None None) infoRecord) = []
   \<and> snd (emit simplePlatform emptyHeap (sharedConfig \<lparr>username := None\<rparr>)
            (CloudLogHandler None None) infoRecord) = []
   \<and> snd (emit simplePlatform emptyHeap (sharedConfig \<lparr>resourceId := Some '' ''\<rparr>)
            (CloudLogHandler None None) infoRecord) = []
   \<and> snd (emit simplePlatform cyclicHeap sharedConfig (CloudLogHandler None None) infoRecord) = []"
proof -
  have c: "enabled sharedConfig" "cloudLevel sharedConfig = Some 20"
    "apiKey sharedConfig = Some ''k''" "username sharedConfig = Some ''viewer-user''"
    "levelno infoRecord = 20" "alshival_resource_id infoRecord = None"
    "resourceId sharedConfig = Some ''r''"
    "resourceOwnerUsername sharedConfig = Some ''owner-user''"
    by (simp_all add: sharedConfig_def testConfig_def infoRecord_def)
  have t: "trim ''r'' = ''r''" "trim '' '' = []" "trim [] = []"
    "\<not> loneSurrogate (trim ''owner-user'')" "\<not> loneSurrogate ''r''"
    by code_simp+
  have e: "safeExtra simplePlatform emptyHeap infoRecord \<noteq> None"
    "safeExtra simplePlatform cyclicHeap infoRecord = None"
    "resolvedResourceId (sharedConfig \<lparr>resourceId := Some '' ''\<rparr>) (CloudLogHandler None None)
       infoRecord = []"
    by code_simp+
  show ?thesis
    using forwarding_decision [of simplePlatform emptyHeap sharedConfig None None infoRecord]
      forwarding_decision [of simplePlatform emptyHeap "sharedConfig \<lparr>enabled := False\<rparr>" None None infoRecord]
      forwarding_decision [of simplePlatform emptyHeap "sharedConfig \<lparr>cloudLevel := None\<rparr>" None "Some 10" infoRecord]
      forwarding_decision [of simplePlatform emptyHeap sharedConfig None "Some 40" infoRecord]
      forwarding_decision [of simplePlatform emptyHeap "sharedConfig \<lparr>apiKey := Some []\<rparr>" None None infoRecord]
      forwarding_decision [of simplePlatform emptyHeap "sharedConfig \<lparr>username := None\<rparr>" None None infoRecord]
      forwarding_decision [of simplePlatform emptyHeap "sharedConfig \<lparr>resourceId := Some '' ''\<rparr>" None None infoRecord]
      forwarding_decision [of simplePlatform cyclicHeap sharedConfig None None infoRecord]
    by (simp add: c t e orEmpty_def present_def)
qed

text \<open>
  The claim as it stands fails on a record whose \<open>extra\<close> contains itself, and on a
  handler whose resource id is a lone surrogate: the six conditions hold and the transport
  is not called, because \<open>safeValue\<close> and \<open>encodeURIComponent\<close> throw inside the \<open>try\<close> of
  \<open>emit\<close>.
\<close>

theorem forwarding_decision_counterexample:
  "enabled sharedConfig
   \<and> cloudLevel sharedConfig = Some 20
   \<and> levelno infoRecord = 20
   \<and> apiKey sharedConfig = Some ''k''
   \<and> username sharedConfig = Some ''viewer-user''
   \<and> resolvedResourceId sharedConfig (CloudLogHandler None None) infoRecord = ''r''
   \<and> extra infoRecord = Ref 0
   \<and> cyclicHeap 0 = Object [(''self'', Ref 0)]
   \<and> snd (emit simplePlatform cyclicHeap sharedConfig (CloudLogHandler None None) infoRecord) = []
   \<and> resolvedResourceId sharedConfig (CloudLogHandler (Some [CHR 0xED, CHR 0xA0, CHR 0x80]) None)
        infoRecord = [CHR 0xED, CHR 0xA0, CHR 0x80]
   \<and> snd (emit simplePlatform emptyHeap sharedConfig
            (CloudLogHandler (Some [CHR 0xED, CHR 0xA0, CHR 0x80]) None) infoRecord) = []"
  by code_simp

subsection \<open>The forwarded request\<close>

text \<open>
  C9, amended. When a record is forwarded, the transport is called exactly once. The URL
  is the scheme and host of the base URL (of the default base URL when the base URL is
  empty, and the default base URL itself when the constructor of URLs rejects the base
  URL), the resolved portal prefix, \<open>/u/\<close>, the URL-encoded owner or username after its
  white space is trimmed, \<open>/resources/\<close>, the URL-encoded resource id and \<open>/logs/\<close>, where
  owner or username is the resource owner's name if it is set and not empty and the
  username otherwise. The headers are \<open>x-api-key\<close> and \<open>x-user-username\<close>, the username
  being present. The level of the one log entry is the record's level name in lower case,
  and \<open>info\<close> in lower case when the record's level name is empty.
\<close>

theorem forwarded_request:
  assumes forwarded: "snd (emit P H cfg (CloudLogHandler rid lvl) r) \<noteq> []"
  shows "\<exists>req entry safeUser safeResource.
           snd (emit P H cfg (CloudLogHandler rid lvl) r) = [req]
           \<and> encodeURIComponent
               (trim (if present (resourceOwnerUsername cfg)
                      then orEmpty (resourceOwnerUsername cfg) else orEmpty (username cfg)))
               = Some safeUser
           \<and> encodeURIComponent (resolvedResourceId cfg (CloudLogHandler rid lvl) r)
               = Some safeResource
           \<and> url req =
               (case URL P (if baseUrl cfg = [] then DEFAULT_BASE_URL else baseUrl cfg) of
                  Some parsed \<Rightarrow> protocol parsed @ ''//'' @ host parsed
                | None \<Rightarrow> DEFAULT_BASE_URL)
               @ resolvedPortalPrefix P cfg @ ''/u/'' @ safeUser @ ''/resources/'' @ safeResource
               @ ''/logs/''
           \<and> present (username cfg)
           \<and> headers req =
               [(''x-api-key'', orEmpty (apiKey cfg)), (''x-user-username'', orEmpty (username cfg))]
           \<and> logs (payload req) = [entry]
           \<and> level entry =
               toLowerCase P (if levelname r = [] then ''INFO'' else levelname r)"
proof -
  let ?h = "CloudLogHandler rid lvl"
  let ?owner = "trim (if present (resourceOwnerUsername cfg)
                      then orEmpty (resourceOwnerUsername cfg) else orEmpty (username cfg))"
  let ?id = "resolvedResourceId cfg ?h r"
  have idle: "\<not> inEmit ?h"
    by (simp add: CloudLogHandler_def)
  from forwarded have nonempty: "shouldForward cfg ?h r \<and> ?id \<noteq> []
      \<and> safeExtra P H r \<noteq> None \<and> \<not> loneSurrogate ?owner \<and> \<not> loneSurrogate ?id"
    by (simp add: emit_nonempty_iff [OF idle])
  then have user: "present (username cfg)"
    by (simp add: shouldForward_iff)
  from nonempty obtain extra' where extra': "safeExtra P H r = Some extra'"
    by auto
  from nonempty have enc: "encodeURIComponent ?owner = Some (concat (map encodeChar ?owner))"
    "encodeURIComponent ?id = Some (concat (map encodeChar ?id))"
    by (simp_all add: encodeURIComponent_def)
  have endpoint: "buildResourceLogsEndpoint P cfg ?owner ?id =
      Inr ((case URL P (if baseUrl cfg = [] then DEFAULT_BASE_URL else baseUrl cfg) of
              Some parsed \<Rightarrow> protocol parsed @ ''//'' @ host parsed
            | None \<Rightarrow> DEFAULT_BASE_URL)
           @ resolvedPortalPrefix P cfg @ ''/u/'' @ concat (map encodeChar ?owner)
           @ ''/resources/'' @ concat (map encodeChar ?id) @ ''/logs/'')"
    using enc by (simp add: buildResourceLogsEndpoint_def Let_def trim_idem resolvedResourceId_trimmed)
  have "snd (emit P H cfg ?h r) =
          (case buildRequest P H cfg r ?id of Inl e \<Rightarrow> [] | Inr request' \<Rightarrow> [request'])"
    using idle nonempty by (simp add: emit_cases)
  then show ?thesis
    using extra' endpoint enc user
    by (simp add: buildRequest_def Let_def)
qed

theorem forwarded_request_witness:
  "\<exists>req entry.
     snd (emit simplePlatform emptyHeap sharedConfig (CloudLogHandler None None) infoRecord) = [req]
     \<and> url req = ''https://alshival.dev/u/owner-user/resources/r/logs/''
     \<and> headers req = [(''x-api-key'', ''k''), (''x-user-username'', ''viewer-user'')]
     \<and> logs (payload req) = [entry]
     \<and> level entry = ''info''"
proof -
  have f: "snd (emit simplePlatform emptyHeap sharedConfig (CloudLogHandler None None) infoRecord) \<noteq> []"
    by code_simp
  have v: "URL simplePlatform (if baseUrl sharedConfig = [] then DEFAULT_BASE_URL else baseUrl sharedConfig) =
       Some \<lparr>protocol = ''https:'', host = ''alshival.dev'', hostname = ''alshival.dev'',
             pathname = ''/''\<rparr>"
    "resolvedPortalPrefix simplePlatform sharedConfig = []"
    "encodeURIComponent
       (trim (if present (resourceOwnerUsername sharedConfig)
              then orEmpty (resourceOwnerUsername sharedConfig)
              else orEmpty (username sharedConfig))) = Some ''owner-user''"
    "encodeURIComponent (resolvedResourceId sharedConfig (CloudLogHandler None None) infoRecord)
       = Some ''r''"
    "orEmpty (apiKey sharedConfig) = ''k''"
    "orEmpty (username sharedConfig) = ''viewer-user''"
    "toLowerCase simplePlatform (if levelname infoRecord = [] then ''INFO'' else levelname infoRecord)
       = ''info''"
    "present (username sharedConfig)"
    by code_simp+
  show ?thesis
    using forwarded_request [OF f] by (simp add: v)
qed

text \<open>
  The claim as it stands fails on a username with white space around it: the URL has the
  trimmed name, not the encoded white space.
\<close>

theorem forwarded_request_counterexample:
  "map url (snd (emit simplePlatform emptyHeap paddedConfig (CloudLogHandler (Some ''r'') None)
                   infoRecord))
     = [''https://alshival.dev/u/bob/resources/r/logs/'']
   \<and> username paddedConfig = Some '' bob ''
   \<and> resourceOwnerUsername paddedConfig = None
   \<and> encodeURIComponent '' bob '' = Some ''%20bob%20''
   \<and> map url (snd (emit simplePlatform emptyHeap paddedConfig (CloudLogHandler (Some ''r'') None)
                     infoRecord))
     \<noteq> [''https://alshival.dev/u/%20bob%20/resources/r/logs/'']"
  by code_simp

subsection \<open>Attaching handlers\<close>

lemma dedupeAddHandler_new:
  "h_resourceId h \<notin> h_resourceId ` set hs \<Longrightarrow> dedupeAddHandler hs h = (hs @ [h], length hs)"
  by (induction hs) auto

lemma dedupeAddHandler_existing:
  assumes "i < length hs"
    and "h_resourceId (hs ! i) = h_resourceId h"
    and "\<forall>j<i. h_resourceId (hs ! j) \<noteq> h_resourceId h"
  shows "dedupeAddHandler hs h =
           (hs[i := (if h_cloudLevel h \<noteq> None then (hs ! i)\<lparr>h_cloudLevel := h_cloudLevel h\<rparr>
                     else hs ! i)], i)"
  using assms
proof (induction hs arbitrary: i)
  case Nil
  then show ?case by simp
next
  case (Cons a hs)
  show ?case
  proof (cases i)
    case 0
    with Cons.prems show ?thesis by simp
  next
    case (Suc k)
    with Cons.prems have a: "h_resourceId a \<noteq> h_resourceId h"
      by auto
    from Suc Cons.prems have "k < length hs" "h_resourceId (hs ! k) = h_resourceId h"
      "\<forall>j<k. h_resourceId (hs ! j) \<noteq> h_resourceId h"
      by auto
    then have "dedupeAddHandler hs h =
           (hs[k := (if h_cloudLevel h \<noteq> None then (hs ! k)\<lparr>h_cloudLevel := h_cloudLevel h\<rparr>
                     else hs ! k)], k)"
      by (rule Cons.IH)
    with a Suc show ?thesis by simp
  qed
qed

lemma dedupeAddHandler_ids:
  "map h_resourceId (fst (dedupeAddHandler hs h)) =
     (if h_resourceId h \<in> h_resourceId ` set hs then map h_resourceId hs
      else map h_resourceId hs @ [h_resourceId h])"
  by (induction hs) (auto split: prod.splits)

lemma dedupeAddHandler_distinct:
  "distinct (map h_resourceId hs) \<Longrightarrow> distinct (map h_resourceId (fst (dedupeAddHandler hs h)))"
  by (simp add: dedupeAddHandler_ids)

lemma emitAll_calls:
  "snd (emitAll P H cfg hs r) = concat (map (\<lambda>h. snd (emit P H cfg h r)) hs)"
  by (induction hs) (auto split: prod.splits)

lemma calls_per_resourceId:
  assumes "distinct (map h_resourceId hs)"
  shows "length (concat (map (\<lambda>h. snd (emit P H cfg h r)) (filter (\<lambda>h. h_resourceId h = x) hs))) \<le> 1"
  using assms
proof (induction hs)
  case Nil
  then show ?case by simp
next
  case (Cons a hs)
  show ?case
  proof (cases "h_resourceId a = x")
    case True
    from Cons.prems have "h_resourceId a \<notin> h_resourceId ` set hs"
      by simp
    then have "\<forall>y\<in>set hs. h_resourceId y \<noteq> h_resourceId a"
      by (metis imageI)
    with True have "filter (\<lambda>h. h_resourceId h = x) hs = []"
      by (simp add: filter_empty_conv)
    with True show ?thesis
      using emit_length [of P H cfg a r] by simp
  next
    case False
    with Cons show ?thesis by simp
  qed
qed

lemma dedupeAddHandler_same:
  assumes ids: "distinct (map h_resourceId hs)"
    and i: "i < length hs"
    and same: "h_resourceId (hs ! i) = h_resourceId h"
  shows "dedupeAddHandler hs h =
           (hs[i := (if h_cloudLevel h \<noteq> None then (hs ! i)\<lparr>h_cloudLevel := h_cloudLevel h\<rparr>
                     else hs ! i)], i)"
proof -
  have first: "\<forall>j<i. h_resourceId (hs ! j) \<noteq> h_resourceId h"
  proof (intro allI impI)
    fix j assume j: "j < i"
    with i ids have "map h_resourceId hs ! j \<noteq> map h_resourceId hs ! i"
      by (simp add: distinct_conv_nth del: nth_map)
    with i j same show "h_resourceId (hs ! j) \<noteq> h_resourceId h" by simp
  qed
  from i same first show ?thesis by (rule dedupeAddHandler_existing)
qed

text \<open>
  C3, amended. Let the handlers of a logger have pairwise different bound resource ids, as
  \<open>dedupeAddHandler\<close> keeps them from the empty list on, and let \<open>attach\<close> be called on the
  logger with the bound resource id of the handler at position \<open>i\<close>. If the call returns
  (the level it is given is one \<open>coerceLevel\<close> accepts), it adds no handler: the list keeps
  its length, the call returns the handler at position \<open>i\<close>, every other handler is
  unchanged, and the handler at \<open>i\<close> keeps its resource id and takes the cloud level of the
  call when that is not null, whether it is higher or lower than its own (and keeps its
  own when the level of the call is absent or null); that level is then the effective
  minimum of its forwarding decision. The bound ids stay pairwise different, so the
  handlers bound to any one resource id make at most one call of the transport for a
  record. Handlers bound to different ids each make their own call, also when they resolve
  the same resource id.
\<close>

theorem attach_same_resourceId:
  assumes ids: "distinct (map h_resourceId target)"
    and i: "i < length target"
    and same: "h_resourceId (target ! i) = rid"
    and resolved: "resolved = (if cloudLevel' \<noteq> JUndefined then cloudLevel' else level')"
    and returns: "attach P target level' cloudLevel' rid = Inr (target', k)"
  shows "k = i
         \<and> length target' = length target
         \<and> (\<forall>j<length target. j \<noteq> i \<longrightarrow> target' ! j = target ! j)
         \<and> h_resourceId (target' ! i) = rid
         \<and> inEmit (target' ! i) = inEmit (target ! i)
         \<and> (\<exists>lvl. (if resolved = JUndefined then Inr None else coerceLevel P resolved) = Inr lvl
               \<and> h_cloudLevel (target' ! i) =
                   (case lvl of Some l \<Rightarrow> Some l | None \<Rightarrow> h_cloudLevel (target ! i))
               \<and> (\<forall>l. lvl = Some l \<longrightarrow>
                     shouldForward cfg (target' ! i) r =
                       (enabled cfg \<and> cloudLevel cfg \<noteq> None \<and> l \<le> levelno r
                        \<and> present (apiKey cfg) \<and> present (username cfg))))
         \<and> distinct (map h_resourceId target')
         \<and> (\<forall>x. length (concat (map (\<lambda>h. snd (emit P H cfg h r))
                              (filter (\<lambda>h. h_resourceId h = x) target'))) \<le> 1)
         \<and> snd (emitAll P H cfg target' r) = concat (map (\<lambda>h. snd (emit P H cfg h r)) target')"
proof -
  have "attach P target level' cloudLevel' rid =
          (case (if resolved = JUndefined then Inr None else coerceLevel P resolved) of
             Inl e \<Rightarrow> Inl e
           | Inr l \<Rightarrow> Inr (dedupeAddHandler target (CloudLogHandler rid l)))"
    by (simp add: attach_def normalizedLevelNo_def Let_def resolved)
  with returns obtain lvl
    where lvl: "(if resolved = JUndefined then Inr None else coerceLevel P resolved) = Inr lvl"
      and d0: "dedupeAddHandler target (CloudLogHandler rid lvl) = (target', k)"
    by (auto split: sum.splits)
  let ?h = "CloudLogHandler rid lvl"
  have h: "h_resourceId ?h = rid" "h_cloudLevel ?h = lvl"
    by (simp_all add: CloudLogHandler_def)
  define m where
    "m = (if lvl \<noteq> None then (target ! i)\<lparr>h_cloudLevel := lvl\<rparr> else target ! i)"
  have "dedupeAddHandler target ?h = (target[i := m], i)"
    unfolding m_def using dedupeAddHandler_same [OF ids i, of ?h] same by (simp add: h)
  with d0 have t: "target' = target[i := m]" and k: "k = i"
    by auto
  have mi: "target[i := m] ! i = m"
    using i by simp
  have ml: "h_cloudLevel m = (case lvl of Some l \<Rightarrow> Some l | None \<Rightarrow> h_cloudLevel (target ! i))"
    by (simp add: m_def split: option.splits)
  have mr: "h_resourceId m = rid" "inEmit m = inEmit (target ! i)"
    using same by (simp_all add: m_def)
  have sf: "shouldForward cfg m r =
              (enabled cfg \<and> cloudLevel cfg \<noteq> None \<and> l \<le> levelno r
               \<and> present (apiKey cfg) \<and> present (username cfg))"
    if "lvl = Some l" for l
    using that ml by (auto simp: shouldForward_iff)
  have dist: "distinct (map h_resourceId target')"
    using dedupeAddHandler_distinct [OF ids, of ?h] d0 by simp
  have level: "\<exists>lvl'. (if resolved = JUndefined then Inr None else coerceLevel P resolved) = Inr lvl'
               \<and> h_cloudLevel (target' ! i) =
                   (case lvl' of Some l \<Rightarrow> Some l | None \<Rightarrow> h_cloudLevel (target ! i))
               \<and> (\<forall>l. lvl' = Some l \<longrightarrow>
                     shouldForward cfg (target' ! i) r =
                       (enabled cfg \<and> cloudLevel cfg \<noteq> None \<and> l \<le> levelno r
                        \<and> present (apiKey cfg) \<and> present (username cfg)))"
    using lvl ml sf by (intro exI [of _ lvl]) (simp add: t mi)
  have others: "\<forall>j<length target. j \<noteq> i \<longrightarrow> target' ! j = target ! j"
    by (simp add: t)
  have calls: "\<forall>x. length (concat (map (\<lambda>h. snd (emit P H cfg h r))
                              (filter (\<lambda>h. h_resourceId h = x) target'))) \<le> 1"
    using calls_per_resourceId [OF dist, of P H cfg r] by simp
  have all: "snd (emitAll P H cfg target' r) = concat (map (\<lambda>h. snd (emit P H cfg h r)) target')"
    by (rule emitAll_calls)
  have here: "length target' = length target" "h_resourceId (target' ! i) = rid"
    "inEmit (target' ! i) = inEmit (target ! i)"
    by (simp_all add: t mi mr)
  from k here others level dist calls all show ?thesis
    by (intro conjI)
qed

theorem attach_same_resourceId_witness:
  "attach simplePlatform [CloudLogHandler None None, CloudLogHandler (Some ''r'') (Some 10)]
     JUndefined (JNum 40) (Some ''r'')
     = Inr ([CloudLogHandler None None, CloudLogHandler (Some ''r'') (Some 40)], 1)
   \<and> (\<exists>lvl. coerceLevel simplePlatform (JNum 40) = Inr lvl
         \<and> h_cloudLevel (CloudLogHandler (Some ''r'') (Some 40)) =
             (case lvl of Some l \<Rightarrow> Some l | None \<Rightarrow> Some 10))
   \<and> length (concat (map (\<lambda>h. snd (emit simplePlatform emptyHeap sharedConfig h infoRecord))
               (filter (\<lambda>h. h_resourceId h = Some ''r'')
                  [CloudLogHandler None None, CloudLogHandler (Some ''r'') (Some 40)]))) \<le> 1"
proof -
  let ?hs = "[CloudLogHandler None None, CloudLogHandler (Some ''r'') (Some 10)]"
  let ?hs' = "[CloudLogHandler None None, CloudLogHandler (Some ''r'') (Some 40)]"
  have a: "distinct (map h_resourceId ?hs)" "1 < length ?hs"
    "h_resourceId (?hs ! 1) = Some ''r''"
    "JNum 40 = (if JNum 40 \<noteq> JUndefined then JNum 40 else JUndefined)"
    by (simp_all add: CloudLogHandler_def)
  have r: "attach simplePlatform ?hs JUndefined (JNum 40) (Some ''r'') = Inr (?hs', 1)"
    by code_simp
  have v: "?hs' ! 1 = CloudLogHandler (Some ''r'') (Some 40)"
    "?hs ! 1 = CloudLogHandler (Some ''r'') (Some 10)"
    "h_cloudLevel (CloudLogHandler (Some ''r'') (Some 10)) = Some 10"
    by (simp_all add: CloudLogHandler_def)
  show ?thesis
    using attach_same_resourceId [OF a r, of sharedConfig infoRecord emptyHeap]
    by (simp only: r v) simp
qed

text \<open>
  The claim as it stands fails twice. The merge does not raise the level, it sets it: a
  handler at level 40 is lowered to 10 by an attach at level 10. And a record can cause two
  calls of the transport for one resource id: after two attaches for \<open>r\<close> to a logger that
  has its first handler, bound to no id, with a configuration whose resource id is \<open>r\<close>,
  both handlers forward the record for \<open>r\<close>.
\<close>

theorem attach_same_resourceId_counterexample:
  "attach simplePlatform [CloudLogHandler (Some ''r'') (Some 40)] JUndefined (JNum 10) (Some ''r'')
     = Inr ([CloudLogHandler (Some ''r'') (Some 10)], 0)
   \<and> attach simplePlatform [CloudLogHandler None None] JUndefined JUndefined (Some ''r'')
     = Inr ([CloudLogHandler None None, CloudLogHandler (Some ''r'') None], 1)
   \<and> attach simplePlatform [CloudLogHandler None None, CloudLogHandler (Some ''r'') None]
       JUndefined JUndefined (Some ''r'')
     = Inr ([CloudLogHandler None None, CloudLogHandler (Some ''r'') None], 1)
   \<and> resourceId sharedConfig = Some ''r''
   \<and> map (\<lambda>request'. resource_id (payload request'))
       (snd (emitAll simplePlatform emptyHeap sharedConfig
               [CloudLogHandler None None, CloudLogHandler (Some ''r'') None] infoRecord))
     = [''r'', ''r'']"
  by code_simp

subsection \<open>configure\<close>

lemma configureResource_fields:
  assumes "parseResourceReference P res = Inr pr"
  shows "\<exists>c. configureResource P cfg res b p = Inr c
           \<and> resourceOwnerUsername c =
               (if res = SUndefined then resourceOwnerUsername cfg
                else map_option ref_resourceOwnerUsername pr)
           \<and> resourceId c =
               (if res = SUndefined then resourceId cfg else map_option ref_resourceId pr)
           \<and> baseUrl c =
               (case pr of
                  Some r \<Rightarrow> if res \<noteq> SUndefined \<and> b = SUndefined then ref_baseUrl r else baseUrl cfg
                | None \<Rightarrow> baseUrl cfg)
           \<and> portalPrefix c =
               (case pr of
                  Some r \<Rightarrow>
                    if res \<noteq> SUndefined \<and> p = SUndefined then Some (ref_portalPrefix r)
                    else portalPrefix cfg
                | None \<Rightarrow> portalPrefix cfg)
           \<and> username c = username cfg \<and> apiKey c = apiKey cfg \<and> enabled c = enabled cfg
           \<and> cloudLevel c = cloudLevel cfg \<and> timeoutSeconds c = timeoutSeconds cfg
           \<and> verifySsl c = verifySsl cfg \<and> debug c = debug cfg"
  using assms by (cases pr) (simp_all add: configureResource_def)

lemma configureFields_fields:
  "username (configureFields c u a b p e) = (if u = SUndefined then username c else stored u)
   \<and> apiKey (configureFields c u a b p e) = (if a = SUndefined then apiKey c else stored a)
   \<and> baseUrl (configureFields c u a b p e) =
       (if b = SUndefined then baseUrl c else stripTrailingSlash (toString b))
   \<and> portalPrefix (configureFields c u a b p e) =
       (if p = SUndefined then portalPrefix c else normalizePortalPrefix p)
   \<and> enabled (configureFields c u a b p e) = (if e = JUndefined then enabled c else truthy e)
   \<and> resourceOwnerUsername (configureFields c u a b p e) = resourceOwnerUsername c
   \<and> resourceId (configureFields c u a b p e) = resourceId c
   \<and> cloudLevel (configureFields c u a b p e) = cloudLevel c
   \<and> timeoutSeconds (configureFields c u a b p e) = timeoutSeconds c
   \<and> verifySsl (configureFields c u a b p e) = verifySsl c
   \<and> debug (configureFields c u a b p e) = debug c"
  by (simp add: configureFields_def Let_def)

lemma configureRest_fields:
  "timeoutSeconds (configureRest c t v d) = (case t of JNum q \<Rightarrow> q | _ \<Rightarrow> timeoutSeconds c)
   \<and> verifySsl (configureRest c t v d) = (if v = JUndefined then verifySsl c else truthy v)
   \<and> debug (configureRest c t v d) = (if d = JUndefined then debug c else truthy d)
   \<and> username (configureRest c t v d) = username c
   \<and> apiKey (configureRest c t v d) = apiKey c
   \<and> baseUrl (configureRest c t v d) = baseUrl c
   \<and> portalPrefix (configureRest c t v d) = portalPrefix c
   \<and> enabled (configureRest c t v d) = enabled c
   \<and> resourceOwnerUsername (configureRest c t v d) = resourceOwnerUsername c
   \<and> resourceId (configureRest c t v d) = resourceId c
   \<and> cloudLevel (configureRest c t v d) = cloudLevel c"
  by (simp add: configureRest_def Let_def split: jsval.splits)

lemma DEBUG_level: "map_of LEVEL_NAME_TO_NO ''DEBUG'' = Some 10"
  by (simp add: LEVEL_NAME_TO_NO_def)

lemma configureCloudLevel_absent:
  assumes "o_cloudLevel opts = None" and "o_cloud_level opts = None"
  shows "\<exists>c'. configureCloudLevel P c opts = Inr c'
           \<and> cloudLevel c' =
               (if o_debug opts = JBool True \<and> cloudLevel c \<noteq> None then Some 10 else cloudLevel c)
           \<and> username c' = username c \<and> apiKey c' = apiKey c \<and> baseUrl c' = baseUrl c
           \<and> portalPrefix c' = portalPrefix c \<and> enabled c' = enabled c
           \<and> resourceOwnerUsername c' = resourceOwnerUsername c \<and> resourceId c' = resourceId c
           \<and> timeoutSeconds c' = timeoutSeconds c \<and> verifySsl c' = verifySsl c
           \<and> debug c' = debug c"
  using assms by (simp add: configureCloudLevel_def DEBUG_level)

lemma configureCloudLevel_supplied:
  assumes "o_cloudLevel opts \<noteq> None \<or> o_cloud_level opts \<noteq> None"
    and "coerceCloudLevel P (own (o_cloudLevel opts) (own (o_cloud_level opts) JUndefined)) = Inr l"
  shows "\<exists>c'. configureCloudLevel P c opts = Inr c'
           \<and> cloudLevel c' = l
           \<and> username c' = username c \<and> apiKey c' = apiKey c \<and> baseUrl c' = baseUrl c
           \<and> portalPrefix c' = portalPrefix c \<and> enabled c' = enabled c
           \<and> resourceOwnerUsername c' = resourceOwnerUsername c \<and> resourceId c' = resourceId c
           \<and> timeoutSeconds c' = timeoutSeconds c \<and> verifySsl c' = verifySsl c
           \<and> debug c' = debug c"
  using assms by (auto simp: configureCloudLevel_def)

lemma configureCloudLevel_invalid:
  assumes "o_cloudLevel opts \<noteq> None \<or> o_cloud_level opts \<noteq> None"
    and "coerceCloudLevel P (own (o_cloudLevel opts) (own (o_cloud_level opts) JUndefined)) = Inl e"
  shows "configureCloudLevel P c opts = Inl e"
  using assms by (auto simp: configureCloudLevel_def)

lemma coerceCloudLevel_error:
  "coerceCloudLevel P v = Inl e \<Longrightarrow> e = invalidLevel v"
  by (cases v) (auto simp: Let_def split: if_splits option.splits)


lemma parseResourceReference_undefined: "parseResourceReference P SUndefined = Inr None"
  by (simp add: parseResourceReference_def)

text \<open>\<open>configure\<close> up to the cloud level, when the resource reference does not throw.\<close>

lemma configure_before_cloudLevel:
  assumes res: "parseResourceReference P (o_resource opts) = Inr pr"
  shows "\<exists>c2.
           configure P cfg opts =
             (case configureCloudLevel P c2 opts of
                Inl e \<Rightarrow> (c2, Some e)
              | Inr c3 \<Rightarrow>
                  (configureRest c3 (own (o_timeoutSeconds opts) (o_timeout_seconds opts))
                     (own (o_verifySsl opts) (o_verify_ssl opts)) (o_debug opts), None))
           \<and> username c2 =
               (if o_username opts = SUndefined then username cfg else stored (o_username opts))
           \<and> apiKey c2 =
               (if own (o_apiKey opts) (o_api_key opts) = SUndefined then apiKey cfg
                else stored (own (o_apiKey opts) (o_api_key opts)))
           \<and> enabled c2 =
               (if o_enabled opts = JUndefined then enabled cfg else truthy (o_enabled opts))
           \<and> resourceOwnerUsername c2 =
               (if o_resource opts = SUndefined then resourceOwnerUsername cfg
                else map_option ref_resourceOwnerUsername pr)
           \<and> resourceId c2 =
               (if o_resource opts = SUndefined then resourceId cfg
                else map_option ref_resourceId pr)
           \<and> baseUrl c2 =
               (if own (o_baseUrl opts) (o_base_url opts) \<noteq> SUndefined
                then stripTrailingSlash (toString (own (o_baseUrl opts) (o_base_url opts)))
                else (case pr of Some r \<Rightarrow> ref_baseUrl r | None \<Rightarrow> baseUrl cfg))
           \<and> portalPrefix c2 =
               (if own (o_portalPrefix opts) (o_portal_prefix opts) \<noteq> SUndefined
                then normalizePortalPrefix (own (o_portalPrefix opts) (o_portal_prefix opts))
                else (case pr of Some r \<Rightarrow> Some (ref_portalPrefix r) | None \<Rightarrow> portalPrefix cfg))
           \<and> cloudLevel c2 = cloudLevel cfg
           \<and> timeoutSeconds c2 = timeoutSeconds cfg
           \<and> verifySsl c2 = verifySsl cfg
           \<and> debug c2 = debug cfg"
proof -
  let ?b = "own (o_baseUrl opts) (o_base_url opts)"
  let ?p = "own (o_portalPrefix opts) (o_portal_prefix opts)"
  from configureResource_fields [OF res, of cfg ?b ?p]
  obtain c1 where c1: "configureResource P cfg (o_resource opts) ?b ?p = Inr c1"
    and f1: "resourceOwnerUsername c1 =
               (if o_resource opts = SUndefined then resourceOwnerUsername cfg
                else map_option ref_resourceOwnerUsername pr)"
      "resourceId c1 =
               (if o_resource opts = SUndefined then resourceId cfg else map_option ref_resourceId pr)"
      "baseUrl c1 =
               (case pr of
                  Some r \<Rightarrow> if o_resource opts \<noteq> SUndefined \<and> ?b = SUndefined then ref_baseUrl r
                            else baseUrl cfg
                | None \<Rightarrow> baseUrl cfg)"
      "portalPrefix c1 =
               (case pr of
                  Some r \<Rightarrow>
                    if o_resource opts \<noteq> SUndefined \<and> ?p = SUndefined then Some (ref_portalPrefix r)
                    else portalPrefix cfg
                | None \<Rightarrow> portalPrefix cfg)"
      "username c1 = username cfg" "apiKey c1 = apiKey cfg" "enabled c1 = enabled cfg"
      "cloudLevel c1 = cloudLevel cfg" "timeoutSeconds c1 = timeoutSeconds cfg"
      "verifySsl c1 = verifySsl cfg" "debug c1 = debug cfg"
    by blast
  define c2 where
    "c2 = configureFields c1 (o_username opts) (own (o_apiKey opts) (o_api_key opts)) ?b ?p
            (o_enabled opts)"
  have run: "configure P cfg opts =
             (case configureCloudLevel P c2 opts of
                Inl e \<Rightarrow> (c2, Some e)
              | Inr c3 \<Rightarrow>
                  (configureRest c3 (own (o_timeoutSeconds opts) (o_timeout_seconds opts))
                     (own (o_verifySsl opts) (o_verify_ssl opts)) (o_debug opts), None))"
    unfolding c2_def by (simp add: configure_def Let_def c1)
  have undef: "pr = None" if "o_resource opts = SUndefined"
    using res that by (simp add: parseResourceReference_undefined)
  note f2 = configureFields_fields [of c1 "o_username opts" "own (o_apiKey opts) (o_api_key opts)"
      ?b ?p "o_enabled opts", folded c2_def]
  have fields: "username c2 =
               (if o_username opts = SUndefined then username cfg else stored (o_username opts))"
    "apiKey c2 =
               (if own (o_apiKey opts) (o_api_key opts) = SUndefined then apiKey cfg
                else stored (own (o_apiKey opts) (o_api_key opts)))"
    "enabled c2 =
               (if o_enabled opts = JUndefined then enabled cfg else truthy (o_enabled opts))"
    "resourceOwnerUsername c2 =
               (if o_resource opts = SUndefined then resourceOwnerUsername cfg
                else map_option ref_resourceOwnerUsername pr)"
    "resourceId c2 =
               (if o_resource opts = SUndefined then resourceId cfg
                else map_option ref_resourceId pr)"
    "cloudLevel c2 = cloudLevel cfg" "timeoutSeconds c2 = timeoutSeconds cfg"
    "verifySsl c2 = verifySsl cfg" "debug c2 = debug cfg"
    using f2 by (simp_all add: f1)
  have base: "baseUrl c2 =
               (if ?b \<noteq> SUndefined then stripTrailingSlash (toString ?b)
                else (case pr of Some r \<Rightarrow> ref_baseUrl r | None \<Rightarrow> baseUrl cfg))"
    using f2 undef by (cases pr) (auto simp: f1)
  have prefix: "portalPrefix c2 =
               (if ?p \<noteq> SUndefined then normalizePortalPrefix ?p
                else (case pr of Some r \<Rightarrow> Some (ref_portalPrefix r) | None \<Rightarrow> portalPrefix cfg))"
    using f2 undef by (cases pr) (auto simp: f1)
  from run fields base prefix show ?thesis
    by blast
qed
lemma configure_resource_throws:
  "parseResourceReference P (o_resource opts) = Inl e \<Longrightarrow> configure P cfg opts = (cfg, Some e)"
  by (auto simp: configure_def configureResource_def Let_def parseResourceReference_undefined)

text \<open>
  \<open>configure\<close> when the resource reference does not throw and the cloud level is absent
  or valid: the call returns, and every field of the configuration it leaves is given.
\<close>

lemma configure_returns:
  assumes res: "parseResourceReference P (o_resource opts) = Inr pr"
    and lvl: "o_cloudLevel opts = None \<and> o_cloud_level opts = None
              \<or> coerceCloudLevel P (own (o_cloudLevel opts) (own (o_cloud_level opts) JUndefined)) = Inr l"
  shows "\<exists>cfg'.
           configure P cfg opts = (cfg', None)
           \<and> timeoutSeconds cfg' =
               (case own (o_timeoutSeconds opts) (o_timeout_seconds opts) of
                  JNum q \<Rightarrow> q | _ \<Rightarrow> timeoutSeconds cfg)
           \<and> verifySsl cfg' =
               (if own (o_verifySsl opts) (o_verify_ssl opts) = JUndefined then verifySsl cfg
                else truthy (own (o_verifySsl opts) (o_verify_ssl opts)))
           \<and> debug cfg' = (if o_debug opts = JUndefined then debug cfg else truthy (o_debug opts))
           \<and> cloudLevel cfg' =
               (if o_cloudLevel opts = None \<and> o_cloud_level opts = None
                then (if o_debug opts = JBool True \<and> cloudLevel cfg \<noteq> None then Some 10
                      else cloudLevel cfg)
                else l)
           \<and> username cfg' =
               (if o_username opts = SUndefined then username cfg else stored (o_username opts))
           \<and> apiKey cfg' =
               (if own (o_apiKey opts) (o_api_key opts) = SUndefined then apiKey cfg
                else stored (own (o_apiKey opts) (o_api_key opts)))
           \<and> enabled cfg' =
               (if o_enabled opts = JUndefined then enabled cfg else truthy (o_enabled opts))
           \<and> resourceOwnerUsername cfg' =
               (if o_resource opts = SUndefined then resourceOwnerUsername cfg
                else map_option ref_resourceOwnerUsername pr)
           \<and> resourceId cfg' =
               (if o_resource opts = SUndefined then resourceId cfg
                else map_option ref_resourceId pr)
           \<and> baseUrl cfg' =
               (if own (o_baseUrl opts) (o_base_url opts) \<noteq> SUndefined
                then stripTrailingSlash (toString (own (o_baseUrl opts) (o_base_url opts)))
                else (case pr of Some r \<Rightarrow> ref_baseUrl r | None \<Rightarrow> baseUrl cfg))
           \<and> portalPrefix cfg' =
               (if own (o_portalPrefix opts) (o_portal_prefix opts) \<noteq> SUndefined
                then normalizePortalPrefix (own (o_portalPrefix opts) (o_portal_prefix opts))
                else (case pr of Some r \<Rightarrow> Some (ref_portalPrefix r) | None \<Rightarrow> portalPrefix cfg))"
proof -
  from configure_before_cloudLevel [OF res, of cfg]
  obtain c2 where run: "configure P cfg opts =
             (case configureCloudLevel P c2 opts of
                Inl e \<Rightarrow> (c2, Some e)
              | Inr c3 \<Rightarrow>
                  (configureRest c3 (own (o_timeoutSeconds opts) (o_timeout_seconds opts))
                     (own (o_verifySsl opts) (o_verify_ssl opts)) (o_debug opts), None))"
    and f2: "username c2 =
               (if o_username opts = SUndefined then username cfg else stored (o_username opts))"
      "apiKey c2 =
               (if own (o_apiKey opts) (o_api_key opts) = SUndefined then apiKey cfg
                else stored (own (o_apiKey opts) (o_api_key opts)))"
      "enabled c2 =
               (if o_enabled opts = JUndefined then enabled cfg else truthy (o_enabled opts))"
      "resourceOwnerUsername c2 =
               (if o_resource opts = SUndefined then resourceOwnerUsername cfg
                else map_option ref_resourceOwnerUsername pr)"
      "resourceId c2 =
               (if o_resource opts = SUndefined then resourceId cfg
                else map_option ref_resourceId pr)"
      "baseUrl c2 =
               (if own (o_baseUrl opts) (o_base_url opts) \<noteq> SUndefined
                then stripTrailingSlash (toString (own (o_baseUrl opts) (o_base_url opts)))
                else (case pr of Some r \<Rightarrow> ref_baseUrl r | None \<Rightarrow> baseUrl cfg))"
      "portalPrefix c2 =
               (if own (o_portalPrefix opts) (o_portal_prefix opts) \<noteq> SUndefined
                then normalizePortalPrefix (own (o_portalPrefix opts) (o_portal_prefix opts))
                else (case pr of Some r \<Rightarrow> Some (ref_portalPrefix r) | None \<Rightarrow> portalPrefix cfg))"
      "cloudLevel c2 = cloudLevel cfg" "timeoutSeconds c2 = timeoutSeconds cfg"
      "verifySsl c2 = verifySsl cfg" "debug c2 = debug cfg"
    by blast
  have "\<exists>c3. configureCloudLevel P c2 opts = Inr c3
           \<and> cloudLevel c3 =
               (if o_cloudLevel opts = None \<and> o_cloud_level opts = None
                then (if o_debug opts = JBool True \<and> cloudLevel c2 \<noteq> None then Some 10
                      else cloudLevel c2)
                else l)
           \<and> username c3 = username c2 \<and> apiKey c3 = apiKey c2 \<and> baseUrl c3 = baseUrl c2
           \<and> portalPrefix c3 = portalPrefix c2 \<and> enabled c3 = enabled c2
           \<and> resourceOwnerUsername c3 = resourceOwnerUsername c2 \<and> resourceId c3 = resourceId c2
           \<and> timeoutSeconds c3 = timeoutSeconds c2 \<and> verifySsl c3 = verifySsl c2
           \<and> debug c3 = debug c2"
  proof (cases "o_cloudLevel opts = None \<and> o_cloud_level opts = None")
    case True
    then show ?thesis
      using configureCloudLevel_absent [where opts = opts and c = c2 and P = P] by simp
  next
    case False
    with lvl show ?thesis
      using configureCloudLevel_supplied [where opts = opts and l = l and c = c2 and P = P] by auto
  qed
  then obtain c3 where c3: "configureCloudLevel P c2 opts = Inr c3"
    and f3: "cloudLevel c3 =
               (if o_cloudLevel opts = None \<and> o_cloud_level opts = None
                then (if o_debug opts = JBool True \<and> cloudLevel c2 \<noteq> None then Some 10
                      else cloudLevel c2)
                else l)"
      "username c3 = username c2" "apiKey c3 = apiKey c2" "baseUrl c3 = baseUrl c2"
      "portalPrefix c3 = portalPrefix c2" "enabled c3 = enabled c2"
      "resourceOwnerUsername c3 = resourceOwnerUsername c2" "resourceId c3 = resourceId c2"
      "timeoutSeconds c3 = timeoutSeconds c2" "verifySsl c3 = verifySsl c2"
      "debug c3 = debug c2"
    by blast
  note f4 = configureRest_fields [of c3 "own (o_timeoutSeconds opts) (o_timeout_seconds opts)"
      "own (o_verifySsl opts) (o_verify_ssl opts)" "o_debug opts"]
  have "configure P cfg opts =
          (configureRest c3 (own (o_timeoutSeconds opts) (o_timeout_seconds opts))
             (own (o_verifySsl opts) (o_verify_ssl opts)) (o_debug opts), None)"
    by (simp add: run c3)
  moreover have "timeoutSeconds c3 = timeoutSeconds cfg" "verifySsl c3 = verifySsl cfg"
    "debug c3 = debug cfg" "cloudLevel c2 \<noteq> None \<longleftrightarrow> cloudLevel cfg \<noteq> None"
    by (simp_all add: f3 f2)
  ultimately show ?thesis
    using f4 by (simp add: f3 f2 cong del: jsval.case_cong_weak)
qed

text \<open>
  \<open>configure\<close> when the resource reference does not throw and the cloud level supplied
  is not valid: the call throws, and the fields before the cloud level are already set.
\<close>

lemma configure_invalid_cloudLevel:
  assumes res: "parseResourceReference P (o_resource opts) = Inr pr"
    and supplied: "o_cloudLevel opts \<noteq> None \<or> o_cloud_level opts \<noteq> None"
    and invalid: "coerceCloudLevel P (own (o_cloudLevel opts) (own (o_cloud_level opts) JUndefined)) = Inl e"
  shows "\<exists>cfg'.
           configure P cfg opts = (cfg', Some e)
           \<and> e = invalidLevel (own (o_cloudLevel opts) (own (o_cloud_level opts) JUndefined))
           \<and> username cfg' =
               (if o_username opts = SUndefined then username cfg else stored (o_username opts))
           \<and> apiKey cfg' =
               (if own (o_apiKey opts) (o_api_key opts) = SUndefined then apiKey cfg
                else stored (own (o_apiKey opts) (o_api_key opts)))
           \<and> enabled cfg' =
               (if o_enabled opts = JUndefined then enabled cfg else truthy (o_enabled opts))
           \<and> resourceOwnerUsername cfg' =
               (if o_resource opts = SUndefined then resourceOwnerUsername cfg
                else map_option ref_resourceOwnerUsername pr)
           \<and> resourceId cfg' =
               (if o_resource opts = SUndefined then resourceId cfg
                else map_option ref_resourceId pr)
           \<and> baseUrl cfg' =
               (if own (o_baseUrl opts) (o_base_url opts) \<noteq> SUndefined
                then stripTrailingSlash (toString (own (o_baseUrl opts) (o_base_url opts)))
                else (case pr of Some r \<Rightarrow> ref_baseUrl r | None \<Rightarrow> baseUrl cfg))
           \<and> portalPrefix cfg' =
               (if own (o_portalPrefix opts) (o_portal_prefix opts) \<noteq> SUndefined
                then normalizePortalPrefix (own (o_portalPrefix opts) (o_portal_prefix opts))
                else (case pr of Some r \<Rightarrow> Some (ref_portalPrefix r) | None \<Rightarrow> portalPrefix cfg))
           \<and> cloudLevel cfg' = cloudLevel cfg
           \<and> timeoutSeconds cfg' = timeoutSeconds cfg
           \<and> verifySsl cfg' = verifySsl cfg
           \<and> debug cfg' = debug cfg"
proof -
  from configure_before_cloudLevel [OF res, of cfg]
  obtain c2 where run: "configure P cfg opts =
             (case configureCloudLevel P c2 opts of
                Inl e \<Rightarrow> (c2, Some e)
              | Inr c3 \<Rightarrow>
                  (configureRest c3 (own (o_timeoutSeconds opts) (o_timeout_seconds opts))
                     (own (o_verifySsl opts) (o_verify_ssl opts)) (o_debug opts), None))"
    and f2: "username c2 =
               (if o_username opts = SUndefined then username cfg else stored (o_username opts))"
      "apiKey c2 =
               (if own (o_apiKey opts) (o_api_key opts) = SUndefined then apiKey cfg
                else stored (own (o_apiKey opts) (o_api_key opts)))"
      "enabled c2 =
               (if o_enabled opts = JUndefined then enabled cfg else truthy (o_enabled opts))"
      "resourceOwnerUsername c2 =
               (if o_resource opts = SUndefined then resourceOwnerUsername cfg
                else map_option ref_resourceOwnerUsername pr)"
      "resourceId c2 =
               (if o_resource opts = SUndefined then resourceId cfg
                else map_option ref_resourceId pr)"
      "baseUrl c2 =
               (if own (o_baseUrl opts) (o_base_url opts) \<noteq> SUndefined
                then stripTrailingSlash (toString (own (o_baseUrl opts) (o_base_url opts)))
                else (case pr of Some r \<Rightarrow> ref_baseUrl r | None \<Rightarrow> baseUrl cfg))"
      "portalPrefix c2 =
               (if own (o_portalPrefix opts) (o_portal_prefix opts) \<noteq> SUndefined
                then normalizePortalPrefix (own (o_portalPrefix opts) (o_portal_prefix opts))
                else (case pr of Some r \<Rightarrow> Some (ref_portalPrefix r) | None \<Rightarrow> portalPrefix cfg))"
      "cloudLevel c2 = cloudLevel cfg" "timeoutSeconds c2 = timeoutSeconds cfg"
      "verifySsl c2 = verifySsl cfg" "debug c2 = debug cfg"
    by blast
  have "configureCloudLevel P c2 opts = Inl e"
    using supplied invalid by (rule configureCloudLevel_invalid)
  then have "configure P cfg opts = (c2, Some e)"
    by (simp add: run)
  moreover have "e = invalidLevel (own (o_cloudLevel opts) (own (o_cloud_level opts) JUndefined))"
    using invalid by (rule coerceCloudLevel_error)
  ultimately show ?thesis
    using f2 by blast
qed


lemma parse_malformedResource:
  "parseResourceReference simplePlatform (SStr malformedResource) = Inl URIError"
  by code_simp




text \<open>
  C5. In a call of \<open>configure\<close> that sets \<open>debug: true\<close> and supplies no cloud level
  (under either spelling), when the resource reference of the call does not make
  \<open>parseResourceReference\<close> throw, the call returns and the cloud level becomes DEBUG (10)
  when it is not null and stays null when it is null. In a call that supplies a valid
  cloud level, when the resource reference does not make \<open>parseResourceReference\<close> throw,
  the call returns and the cloud level becomes the value supplied, coerced, whatever the
  debug option is. When the resource reference makes \<open>parseResourceReference\<close> throw, the
  call throws that error and leaves the configuration as it was: so does the call
  \<open>configure({debug: true, resource: 'https://host/u/%zz/resources/r'})\<close> on the
  configuration of the tests, whose cloud level stays 20.
\<close>

theorem configure_debug_cloudLevel:
  "(o_debug opts = JBool True \<and> o_cloudLevel opts = None \<and> o_cloud_level opts = None \<longrightarrow>
      (case parseResourceReference P (o_resource opts) of
         Inr pr \<Rightarrow>
           snd (configure P cfg opts) = None
           \<and> cloudLevel (fst (configure P cfg opts)) =
               (if cloudLevel cfg = None then None else Some 10)
       | Inl e \<Rightarrow> configure P cfg opts = (cfg, Some e)))
   \<and> ((o_cloudLevel opts \<noteq> None \<or> o_cloud_level opts \<noteq> None)
       \<and> coerceCloudLevel P (own (o_cloudLevel opts) (own (o_cloud_level opts) JUndefined)) = Inr l \<longrightarrow>
      (case parseResourceReference P (o_resource opts) of
         Inr pr \<Rightarrow>
           snd (configure P cfg opts) = None \<and> cloudLevel (fst (configure P cfg opts)) = l
       | Inl e \<Rightarrow> configure P cfg opts = (cfg, Some e)))
   \<and> o_debug (debugOptions \<lparr>o_resource := SStr malformedResource\<rparr>) = JBool True
   \<and> o_cloudLevel (debugOptions \<lparr>o_resource := SStr malformedResource\<rparr>) = None
   \<and> o_cloud_level (debugOptions \<lparr>o_resource := SStr malformedResource\<rparr>) = None
   \<and> cloudLevel testConfig = Some 20
   \<and> configure simplePlatform testConfig (debugOptions \<lparr>o_resource := SStr malformedResource\<rparr>)
       = (testConfig, Some URIError)"
proof -
  have absent: "(case parseResourceReference P (o_resource opts) of
         Inr pr \<Rightarrow>
           snd (configure P cfg opts) = None
           \<and> cloudLevel (fst (configure P cfg opts)) =
               (if cloudLevel cfg = None then None else Some 10)
       | Inl e \<Rightarrow> configure P cfg opts = (cfg, Some e))"
    if h: "o_debug opts = JBool True \<and> o_cloudLevel opts = None \<and> o_cloud_level opts = None"
  proof (cases "parseResourceReference P (o_resource opts)")
    case (Inl e)
    then show ?thesis by (simp add: configure_resource_throws)
  next
    case (Inr pr)
    from h have "o_cloudLevel opts = None \<and> o_cloud_level opts = None
              \<or> coerceCloudLevel P (own (o_cloudLevel opts) (own (o_cloud_level opts) JUndefined)) = Inr None"
      by simp
    from configure_returns [OF Inr this, of cfg] h Inr show ?thesis
      by auto
  qed
  have supplied: "(case parseResourceReference P (o_resource opts) of
         Inr pr \<Rightarrow>
           snd (configure P cfg opts) = None \<and> cloudLevel (fst (configure P cfg opts)) = l
       | Inl e \<Rightarrow> configure P cfg opts = (cfg, Some e))"
    if h: "(o_cloudLevel opts \<noteq> None \<or> o_cloud_level opts \<noteq> None)
       \<and> coerceCloudLevel P (own (o_cloudLevel opts) (own (o_cloud_level opts) JUndefined)) = Inr l"
  proof (cases "parseResourceReference P (o_resource opts)")
    case (Inl e)
    then show ?thesis by (simp add: configure_resource_throws)
  next
    case (Inr pr)
    from h have "o_cloudLevel opts = None \<and> o_cloud_level opts = None
              \<or> coerceCloudLevel P (own (o_cloudLevel opts) (own (o_cloud_level opts) JUndefined)) = Inr l"
      by simp
    from configure_returns [OF Inr this, of cfg] h Inr show ?thesis
      by auto
  qed
  have failing: "configure simplePlatform testConfig
      (debugOptions \<lparr>o_resource := SStr malformedResource\<rparr>) = (testConfig, Some URIError)"
    by (rule configure_resource_throws) (simp add: parse_malformedResource)
  have opts: "o_debug (debugOptions \<lparr>o_resource := SStr malformedResource\<rparr>) = JBool True"
    "o_cloudLevel (debugOptions \<lparr>o_resource := SStr malformedResource\<rparr>) = None"
    "o_cloud_level (debugOptions \<lparr>o_resource := SStr malformedResource\<rparr>) = None"
    "cloudLevel testConfig = Some 20"
    by (simp_all add: debugOptions_def noOptions_def testConfig_def)
  from absent supplied failing opts show ?thesis
    by blast
qed

theorem configure_debug_cloudLevel_witness:
  "snd (configure simplePlatform testConfig debugOptions) = None
   \<and> cloudLevel (fst (configure simplePlatform testConfig debugOptions)) = Some 10
   \<and> snd (configure simplePlatform (testConfig \<lparr>cloudLevel := None\<rparr>) debugOptions) = None
   \<and> cloudLevel (fst (configure simplePlatform (testConfig \<lparr>cloudLevel := None\<rparr>) debugOptions)) = None
   \<and> snd (configure simplePlatform testConfig (debugOptions \<lparr>o_cloud_level := Some (JStr ''error'')\<rparr>))
       = None
   \<and> cloudLevel (fst (configure simplePlatform testConfig
        (debugOptions \<lparr>o_cloud_level := Some (JStr ''error'')\<rparr>))) = Some 40
   \<and> configure simplePlatform testConfig (debugOptions \<lparr>o_resource := SStr malformedResource\<rparr>)
       = (testConfig, Some URIError)"
proof -
  have r: "parseResourceReference simplePlatform (o_resource debugOptions) = Inr None"
    "parseResourceReference simplePlatform
       (o_resource (debugOptions \<lparr>o_cloud_level := Some (JStr ''error'')\<rparr>)) = Inr None"
    by (simp_all add: debugOptions_def noOptions_def parseResourceReference_undefined)
  have d: "o_debug debugOptions = JBool True" "o_cloudLevel debugOptions = None"
    "o_cloud_level debugOptions = None"
    by (simp_all add: debugOptions_def noOptions_def)
  have e: "coerceCloudLevel simplePlatform
             (own (o_cloudLevel (debugOptions \<lparr>o_cloud_level := Some (JStr ''error'')\<rparr>))
                (own (o_cloud_level (debugOptions \<lparr>o_cloud_level := Some (JStr ''error'')\<rparr>)) JUndefined))
           = Inr (Some 40)"
    by code_simp
  have c: "cloudLevel testConfig = Some 20"
    by (simp add: testConfig_def)
  show ?thesis
    using configure_debug_cloudLevel [where P = simplePlatform and opts = debugOptions
        and cfg = testConfig and l = None]
      configure_debug_cloudLevel [where P = simplePlatform and opts = debugOptions
        and cfg = "testConfig \<lparr>cloudLevel := None\<rparr>" and l = None]
      configure_debug_cloudLevel [where P = simplePlatform
        and opts = "debugOptions \<lparr>o_cloud_level := Some (JStr ''error'')\<rparr>"
        and cfg = testConfig and l = "Some 40"] e
    by (simp add: d c r)
qed

text \<open>
  C10. When the cloud level supplied to \<open>configure\<close> is not valid and the resource
  reference of the call does not make \<open>parseResourceReference\<close> throw, the call throws the
  error of \<open>coerceCloudLevel\<close> for that value, and the configuration it leaves has the
  fields that are processed before the cloud level already updated (the resource owner, the
  resource id, the base URL and the portal prefix from the resource reference, and the
  supplied username, apiKey, baseUrl, portalPrefix and enabled), while cloudLevel,
  timeoutSeconds, verifySsl and debug have their old values, whatever the call supplies for
  them. When the resource reference makes \<open>parseResourceReference\<close> throw, the call throws
  that error and not the one of the cloud level, and no field is updated: so does the call
  \<open>configure({username: 'u', cloudLevel: 'bogus', resource: 'https://host/u/%zz/resources/r'})\<close>
  on the configuration of the tests.
\<close>

theorem configure_not_atomic:
  assumes supplied: "o_cloudLevel opts \<noteq> None \<or> o_cloud_level opts \<noteq> None"
    and invalid: "coerceCloudLevel P (own (o_cloudLevel opts) (own (o_cloud_level opts) JUndefined)) = Inl e"
  shows "(case parseResourceReference P (o_resource opts) of
            Inl e' \<Rightarrow> configure P cfg opts = (cfg, Some e')
          | Inr pr \<Rightarrow>
              (\<exists>cfg'.
                 configure P cfg opts = (cfg', Some e)
                 \<and> e = invalidLevel (own (o_cloudLevel opts) (own (o_cloud_level opts) JUndefined))
                 \<and> username cfg' =
               (if o_username opts = SUndefined then username cfg else stored (o_username opts))
           \<and> apiKey cfg' =
               (if own (o_apiKey opts) (o_api_key opts) = SUndefined then apiKey cfg
                else stored (own (o_apiKey opts) (o_api_key opts)))
           \<and> enabled cfg' =
               (if o_enabled opts = JUndefined then enabled cfg else truthy (o_enabled opts))
           \<and> resourceOwnerUsername cfg' =
               (if o_resource opts = SUndefined then resourceOwnerUsername cfg
                else map_option ref_resourceOwnerUsername pr)
           \<and> resourceId cfg' =
               (if o_resource opts = SUndefined then resourceId cfg
                else map_option ref_resourceId pr)
           \<and> baseUrl cfg' =
               (if own (o_baseUrl opts) (o_base_url opts) \<noteq> SUndefined
                then stripTrailingSlash (toString (own (o_baseUrl opts) (o_base_url opts)))
                else (case pr of Some r \<Rightarrow> ref_baseUrl r | None \<Rightarrow> baseUrl cfg))
           \<and> portalPrefix cfg' =
               (if own (o_portalPrefix opts) (o_portal_prefix opts) \<noteq> SUndefined
                then normalizePortalPrefix (own (o_portalPrefix opts) (o_portal_prefix opts))
                else (case pr of Some r \<Rightarrow> Some (ref_portalPrefix r) | None \<Rightarrow> portalPrefix cfg))
                 \<and> cloudLevel cfg' = cloudLevel cfg
                 \<and> timeoutSeconds cfg' = timeoutSeconds cfg
                 \<and> verifySsl cfg' = verifySsl cfg
                 \<and> debug cfg' = debug cfg))
         \<and> coerceCloudLevel simplePlatform (JStr ''bogus'') = Inl (InvalidLevel (JStr ''bogus''))
         \<and> configure simplePlatform testConfig
             (noOptions \<lparr>o_username := SStr ''u'', o_resource := SStr malformedResource,
                         o_cloudLevel := Some (JStr ''bogus'')\<rparr>)
             = (testConfig, Some URIError)"
proof -
  have general: "(case parseResourceReference P (o_resource opts) of
            Inl e' \<Rightarrow> configure P cfg opts = (cfg, Some e')
          | Inr pr \<Rightarrow>
              (\<exists>cfg'.
                 configure P cfg opts = (cfg', Some e)
                 \<and> e = invalidLevel (own (o_cloudLevel opts) (own (o_cloud_level opts) JUndefined))
                 \<and> username cfg' =
               (if o_username opts = SUndefined then username cfg else stored (o_username opts))
           \<and> apiKey cfg' =
               (if own (o_apiKey opts) (o_api_key opts) = SUndefined then apiKey cfg
                else stored (own (o_apiKey opts) (o_api_key opts)))
           \<and> enabled cfg' =
               (if o_enabled opts = JUndefined then enabled cfg else truthy (o_enabled opts))
           \<and> resourceOwnerUsername cfg' =
               (if o_resource opts = SUndefined then resourceOwnerUsername cfg
                else map_option ref_resourceOwnerUsername pr)
           \<and> resourceId cfg' =
               (if o_resource opts = SUndefined then resourceId cfg
                else map_option ref_resourceId pr)
           \<and> baseUrl cfg' =
               (if own (o_baseUrl opts) (o_base_url opts) \<noteq> SUndefined
                then stripTrailingSlash (toString (own (o_baseUrl opts) (o_base_url opts)))
                else (case pr of Some r \<Rightarrow> ref_baseUrl r | None \<Rightarrow> baseUrl cfg))
           \<and> portalPrefix cfg' =
               (if own (o_portalPrefix opts) (o_portal_prefix opts) \<noteq> SUndefined
                then normalizePortalPrefix (own (o_portalPrefix opts) (o_portal_prefix opts))
                else (case pr of Some r \<Rightarrow> Some (ref_portalPrefix r) | None \<Rightarrow> portalPrefix cfg))
                 \<and> cloudLevel cfg' = cloudLevel cfg
                 \<and> timeoutSeconds cfg' = timeoutSeconds cfg
                 \<and> verifySsl cfg' = verifySsl cfg
                 \<and> debug cfg' = debug cfg))"
  proof (cases "parseResourceReference P (o_resource opts)")
    case (Inl e')
    then show ?thesis by (simp add: configure_resource_throws)
  next
    case (Inr pr)
    from configure_invalid_cloudLevel [OF Inr supplied invalid, of cfg] Inr show ?thesis
      by simp
  qed
  have bogus: "coerceCloudLevel simplePlatform (JStr ''bogus'') = Inl (InvalidLevel (JStr ''bogus''))"
    by code_simp
  have failing: "configure simplePlatform testConfig
             (noOptions \<lparr>o_username := SStr ''u'', o_resource := SStr malformedResource,
                         o_cloudLevel := Some (JStr ''bogus'')\<rparr>)
             = (testConfig, Some URIError)"
    by (rule configure_resource_throws) (simp add: parse_malformedResource)
  from general bogus failing show ?thesis
    by (intro conjI)
qed

theorem configure_not_atomic_witness:
  "\<exists>cfg'.
     configure simplePlatform testConfig
       (noOptions \<lparr>o_username := SStr ''u'', o_cloudLevel := Some (JBool False),
                   o_timeoutSeconds := Some (JNum 9), o_debug := JBool True\<rparr>)
       = (cfg', Some (InvalidLevel (JBool False)))
     \<and> username cfg' = Some ''u''
     \<and> cloudLevel cfg' = Some 20
     \<and> timeoutSeconds cfg' = 5
     \<and> debug cfg' = False"
proof -
  let ?opts = "noOptions \<lparr>o_username := SStr ''u'', o_cloudLevel := Some (JBool False),
                   o_timeoutSeconds := Some (JNum 9), o_debug := JBool True\<rparr>"
  have res: "parseResourceReference simplePlatform (o_resource ?opts) = Inr None"
    by (simp add: noOptions_def parseResourceReference_undefined)
  have supplied: "o_cloudLevel ?opts \<noteq> None \<or> o_cloud_level ?opts \<noteq> None"
    by simp
  have invalid: "coerceCloudLevel simplePlatform
                   (own (o_cloudLevel ?opts) (own (o_cloud_level ?opts) JUndefined))
                   = Inl (InvalidLevel (JBool False))"
    by (simp add: own_def)
  from configure_not_atomic [OF supplied invalid, of testConfig] res
  obtain cfg' where "configure simplePlatform testConfig ?opts = (cfg', Some (InvalidLevel (JBool False)))"
    "username cfg' = (if o_username ?opts = SUndefined then username testConfig
                      else stored (o_username ?opts))"
    "cloudLevel cfg' = cloudLevel testConfig" "timeoutSeconds cfg' = timeoutSeconds testConfig"
    "debug cfg' = debug testConfig"
    by auto
  then show ?thesis
    by (simp add: testConfig_def)
qed

subsection \<open>Resource references\<close>

lemma split_no_sep: "sep \<notin> set a \<Longrightarrow> split sep a = [a]"
  by (induction a) auto

lemma split_append_sep:
  "sep \<notin> set a \<Longrightarrow> split sep (a @ sep # rest) = a # split sep rest"
  by (induction a) auto

lemma findResource_here:
  assumes "i + 4 \<le> length segs" "segs ! i = ''u''" "segs ! (i + 2) = ''resources''"
  shows "findResource segs i = Some i"
  using assms by (subst findResource.simps) simp

lemma findResource_skip:
  assumes "i + 4 \<le> length segs" "\<not> (segs ! i = ''u'' \<and> segs ! (i + 2) = ''resources'')"
  shows "findResource segs i = findResource segs (i + 1)"
  using assms by (subst findResource.simps) auto

lemma findResource_end: "length segs < i + 4 \<Longrightarrow> findResource segs i = None"
  by (subst findResource.simps) simp

lemma all_from: "(\<forall>j\<ge>i. Q j) \<longleftrightarrow> Q i \<and> (\<forall>j\<ge>Suc i. Q j)" for i :: nat
proof
  assume "\<forall>j\<ge>i. Q j"
  then show "Q i \<and> (\<forall>j\<ge>Suc i. Q j)" by simp
next
  assume h: "Q i \<and> (\<forall>j\<ge>Suc i. Q j)"
  show "\<forall>j\<ge>i. Q j"
  proof (intro allI impI)
    fix j assume "i \<le> j"
    then have "j = i \<or> Suc i \<le> j" by arith
    with h show "Q j" by blast
  qed
qed

lemma findResource_None_iff:
  "findResource segs i = None \<longleftrightarrow>
     (\<forall>j\<ge>i. j + 4 \<le> length segs \<longrightarrow> \<not> (segs ! j = ''u'' \<and> segs ! (j + 2) = ''resources''))"
proof (induction segs i rule: findResource.induct)
  case (1 segments index)
  let ?Q = "\<lambda>j. j + 4 \<le> length segments \<longrightarrow>
                \<not> (segments ! j = ''u'' \<and> segments ! (j + 2) = ''resources'')"
  show ?case
  proof (cases "index + 4 \<le> length segments")
    case False
    then have "findResource segments index = None"
      by (simp add: findResource_end)
    moreover from False have "\<forall>j\<ge>index. ?Q j"
      by simp
    ultimately show ?thesis by blast
  next
    case in_range: True
    show ?thesis
    proof (cases "segments ! index = ''u'' \<and> segments ! (index + 2) = ''resources''")
      case True
      with in_range have "findResource segments index = Some index"
        by (simp add: findResource_here)
      moreover from True in_range have "\<not> ?Q index"
        by simp
      ultimately show ?thesis by auto
    next
      case False
      with in_range have skip: "findResource segments index = findResource segments (index + 1)"
        by (rule findResource_skip)
      from False have q: "?Q index"
        by simp
      from "1.IH" [OF in_range False] have ih: "findResource segments (index + 1) = None \<longleftrightarrow>
        (\<forall>j\<ge>Suc index. ?Q j)"
        by simp
      have "(\<forall>j\<ge>index. ?Q j) \<longleftrightarrow> ?Q index \<and> (\<forall>j\<ge>Suc index. ?Q j)"
        by (rule all_from)
      with skip ih q show ?thesis
        by simp
    qed
  qed
qed


lemma parse_null_input:
  "resource = SUndefined \<or> resource = SNull \<or> trim (toString resource) = [] \<Longrightarrow>
     parseResourceReference P resource = Inr None"
  by (auto simp: parseResourceReference_def)

lemma parse_malformed:
  "URL P (trim (toString resource)) = None \<Longrightarrow> parseResourceReference P resource = Inr None"
  by (simp add: parseResourceReference_def)

lemma parse_no_pattern:
  assumes "URL P (trim raw) = Some parsed"
    and "\<forall>j. j + 4 \<le> length (pathSegments P (pathname parsed)) \<longrightarrow>
           \<not> (pathSegments P (pathname parsed) ! j = ''u''
              \<and> pathSegments P (pathname parsed) ! (j + 2) = ''resources'')"
  shows "parseResourceReference P (SStr raw) = Inr None"
proof -
  from assms(2) have "findResource (pathSegments P (pathname parsed)) 0 = None"
    by (simp add: findResource_None_iff)
  with assms(1) show ?thesis
    by (simp add: parseResourceReference_def)
qed

lemma findResource_Some:
  "findResource segs i = Some k \<Longrightarrow> k + 4 \<le> length segs"
proof (induction segs i rule: findResource.induct)
  case (1 segments index)
  from "1.prems" show ?case
    by (subst (asm) findResource.simps) (auto split: if_splits intro: "1.IH")
qed

lemma parse_blank:
  assumes "URL P (trim raw) = Some parsed"
    and "findResource (pathSegments P (pathname parsed)) 0 = Some k"
    and "decodeURIComponent (pathSegments P (pathname parsed) ! (k + 1)) = Some decoded_owner"
    and "decodeURIComponent (pathSegments P (pathname parsed) ! (k + 3)) = Some decoded_id"
    and "trim decoded_owner = [] \<or> trim decoded_id = []"
  shows "parseResourceReference P (SStr raw) = Inr None"
  using assms by (auto simp: parseResourceReference_def makeReference_def)

text \<open>
  An owner or id with a malformed escape makes \<open>decodeURIComponent\<close> throw;
  \<open>parseResourceReference\<close> does not catch the error, and \<open>configure\<close> throws it before
  it changes anything.
\<close>

lemma parse_malformed_escape:
  assumes "trim raw \<noteq> []" and "URL P (trim raw) = Some parsed"
    and "findResource (pathSegments P (pathname parsed)) 0 = Some k"
    and "decodeURIComponent (pathSegments P (pathname parsed) ! (k + 1)) = None
         \<or> decodeURIComponent (pathSegments P (pathname parsed) ! (k + 3)) = None"
  shows "parseResourceReference P (SStr raw) = Inl URIError"
  using assms by (auto simp: parseResourceReference_def Let_def split: option.splits)

lemma decodeURIComponent_malformed:
  "decodeURIComponent ''%'' = None \<and> decodeURIComponent ''50%zz'' = None
   \<and> decodeURIComponent ''%C3'' = None \<and> decodeURIComponent ''a%20b'' = Some ''a b''"
  by code_simp

lemma decodeURIComponent_plain: "CHR ''%'' \<notin> set s \<Longrightarrow> decodeURIComponent s = Some s"
  by (induction s) auto

lemma resource_url_trim:
  "trim (''https://'' @ hst @ rest @ ''/'') = ''https://'' @ hst @ rest @ ''/''"
  by (rule trim_unchanged) (simp_all add: startsWord_h endsWord_slash)

lemma findResource_first:
  assumes "k + 4 \<le> length segs" and "segs ! k = ''u''" and "segs ! (k + 2) = ''resources''"
    and "\<forall>j<k. i \<le> j \<longrightarrow> \<not> (segs ! j = ''u'' \<and> segs ! (j + 2) = ''resources'')"
    and "i \<le> k"
  shows "findResource segs i = Some k"
  using assms
proof (induction "k - i" arbitrary: i)
  case 0
  then have "i = k" by simp
  with "0.prems" show ?case by (simp add: findResource_here)
next
  case (Suc d)
  then have lt: "i < k" by simp
  with Suc.prems have "\<not> (segs ! i = ''u'' \<and> segs ! (i + 2) = ''resources'')"
    by blast
  moreover from lt Suc.prems have "i + 4 \<le> length segs" by simp
  ultimately have "findResource segs i = findResource segs (i + 1)"
    by (intro findResource_skip) simp_all
  moreover have "findResource segs (i + 1) = Some k"
  proof (rule Suc.hyps(1))
    show "d = k - (i + 1)" using Suc.hyps(2) by simp
    show "\<forall>j<k. i + 1 \<le> j \<longrightarrow> \<not> (segs ! j = ''u'' \<and> segs ! (j + 2) = ''resources'')"
      using Suc.prems(4) by simp
    show "i + 1 \<le> k" using lt by simp
  qed (use Suc.prems in simp_all)
  ultimately show ?case by simp
qed

text \<open>The path \<open>/a/b/c\<close> of the segments \<open>a\<close>, \<open>b\<close>, \<open>c\<close>, and its segments.\<close>

lemma path_split:
  assumes "\<forall>s \<in> set segs. CHR ''/'' \<notin> set s"
  shows "split CHR ''/'' (concat (map ((#) CHR ''/'') segs) @ ''/'') = [] # segs @ [[]]"
  using assms
proof (induction segs)
  case Nil
  then show ?case by simp
next
  case (Cons s segs)
  then have ih: "split CHR ''/'' (concat (map ((#) CHR ''/'') segs) @ ''/'') = [] # segs @ [[]]"
    by simp
  obtain rest where rest: "concat (map ((#) CHR ''/'') segs) @ ''/'' = CHR ''/'' # rest"
    by (cases segs) simp_all
  with ih have "split CHR ''/'' rest = segs @ [[]]"
    by simp
  moreover from Cons.prems have "CHR ''/'' \<notin> set s"
    by simp
  ultimately have "split CHR ''/'' (s @ CHR ''/'' # rest) = s # segs @ [[]]"
    by (simp add: split_append_sep)
  with rest show ?case
    by simp
qed

lemma path_filter:
  assumes "\<forall>s \<in> set segs. s \<noteq> [] \<and> CHR ''/'' \<notin> set s"
  shows "filter (\<lambda>x. x \<noteq> []) (split CHR ''/'' (concat (map ((#) CHR ''/'') segs) @ ''/'')) = segs"
proof -
  from assms have "filter (\<lambda>x. x \<noteq> []) segs = segs"
    by (simp add: filter_id_conv)
  with assms show ?thesis
    by (simp add: path_split)
qed

lemma path_pathSegments:
  assumes "\<forall>s \<in> set segs. s \<noteq> [] \<and> CHR ''/'' \<notin> set s" and "segs \<noteq> []"
  shows "toLowerCase P (last segs) \<noteq> ''logs'' \<Longrightarrow>
           pathSegments P (concat (map ((#) CHR ''/'') segs) @ ''/'') = segs"
    and "toLowerCase P (last segs) = ''logs'' \<Longrightarrow>
           pathSegments P (concat (map ((#) CHR ''/'') segs) @ ''/'') = butlast segs"
  using assms(2) by (simp_all add: pathSegments_def path_filter [OF assms(1)])

lemma join_path:
  "pre \<noteq> [] \<Longrightarrow> CHR ''/'' # join ''/'' pre = concat (map ((#) CHR ''/'') pre)"
  by (induction "''/''" pre rule: join.induct) simp_all

lemma makeReference_prefix:
  assumes "owner' \<noteq> []" "rid \<noteq> []" "\<forall>s \<in> set pre. s \<noteq> []" "hst \<noteq> []" "last hst \<noteq> CHR ''/''"
    and "protocol parsed = ''https:''" "host parsed = hst"
  shows "makeReference parsed owner' rid pre =
           Some \<lparr>ref_baseUrl = ''https://'' @ hst,
                 ref_portalPrefix = concat (map ((#) CHR ''/'') pre),
                 ref_resourceOwnerUsername = owner', ref_resourceId = rid\<rparr>"
proof (cases pre)
  case Nil
  with assms show ?thesis
    by (simp add: makeReference_def stripTrailingSlash_def)
next
  case (Cons x xs)
  with assms(3) have "x \<noteq> []" by simp
  then have "concat (map ((#) CHR ''/'') pre) \<noteq> ''/''"
    using Cons by (cases x) simp_all
  moreover have "CHR ''/'' # join ''/'' pre = concat (map ((#) CHR ''/'') pre)"
    using Cons by (intro join_path) simp
  ultimately show ?thesis
    using assms Cons by (simp add: makeReference_def stripTrailingSlash_def)
qed

lemma parse_reference_found:
  assumes raw: "trim raw \<noteq> []"
    and url: "URL P (trim raw) = Some parsed"
    and segs: "pathSegments P (pathname parsed) = pre @ [''u'', owner', ''resources'', rid]"
    and first: "\<forall>j < length pre.
                  \<not> ((pre @ [''u'', owner', ''resources'', rid]) ! j = ''u''
                     \<and> (pre @ [''u'', owner', ''resources'', rid]) ! (j + 2) = ''resources'')"
    and dec: "decodeURIComponent owner' = Some decoded_owner" "decodeURIComponent rid = Some decoded_id"
  shows "parseResourceReference P (SStr raw)
           = Inr (makeReference parsed (trim decoded_owner) (trim decoded_id) pre)"
proof -
  let ?segs = "pre @ [''u'', owner', ''resources'', rid]"
  have "findResource ?segs 0 = Some (length pre)"
    using first by (intro findResource_first) (simp_all add: nth_append)
  moreover have "?segs ! (length pre + 1) = owner'" "?segs ! (length pre + 3) = rid"
    by (simp_all add: nth_append)
  ultimately show ?thesis
    using raw url dec by (simp add: parseResourceReference_def segs)
qed

text \<open>
  C7, amended. Let Prefix be a list of segments, possibly none, and OWNER, ID and LOGS
  segments, all of them not empty and without a slash, where LOGS is \<open>logs\<close> when mapped
  to lower case and ID is not, no \<open>u\<close>, owner, \<open>resources\<close>, id in a row starts inside
  Prefix, and OWNER and ID decode to strings that are not blank; let the constructor of
  URLs read \<open>https://host/Prefix/u/OWNER/resources/ID/\<close> and the same URL followed by
  \<open>LOGS/\<close> as they are written. Then \<open>parseResourceReference\<close> maps both URLs to the same
  reference: base URL \<open>https://host\<close>, portal prefix \<open>/Prefix\<close> (the empty string when
  Prefix has no segment), and as owner and resource id the decoded and trimmed OWNER and
  ID. These are OWNER and ID themselves when they have no escape and no white space around
  them. \<open>parseResourceReference\<close> returns null for undefined, null and blank input, for a
  string the constructor rejects, for a path with no \<open>u\<close>, owner, \<open>resources\<close>, id in a
  row, and where the decoded owner or id is blank.
\<close>

theorem parseResourceReference_cases:
  "((\<forall>s \<in> set (pre @ [owner', rid, lg]). s \<noteq> [] \<and> CHR ''/'' \<notin> set s)
      \<and> hst \<noteq> [] \<and> last hst \<noteq> CHR ''/''
      \<and> toLowerCase P lg = ''logs''
      \<and> toLowerCase P rid \<noteq> ''logs''
      \<and> (\<forall>j < length pre.
            \<not> ((pre @ [''u'', owner', ''resources'', rid]) ! j = ''u''
               \<and> (pre @ [''u'', owner', ''resources'', rid]) ! (j + 2) = ''resources''))
      \<and> decodeURIComponent owner' = Some decoded_owner \<and> trim decoded_owner \<noteq> []
      \<and> decodeURIComponent rid = Some decoded_id \<and> trim decoded_id \<noteq> []
      \<and> path = concat (map ((#) CHR ''/'') (pre @ [''u'', owner', ''resources'', rid])) @ ''/''
      \<and> URL P (''https://'' @ hst @ path)
          = Some \<lparr>protocol = ''https:'', host = hst, hostname = hn, pathname = path\<rparr>
      \<and> URL P (''https://'' @ hst @ path @ lg @ ''/'')
          = Some \<lparr>protocol = ''https:'', host = hst, hostname = hn, pathname = path @ lg @ ''/''\<rparr>
    \<longrightarrow>
      parseResourceReference P (SStr (''https://'' @ hst @ path))
        = Inr (Some \<lparr>ref_baseUrl = ''https://'' @ hst,
                      ref_portalPrefix = concat (map ((#) CHR ''/'') pre),
                      ref_resourceOwnerUsername = trim decoded_owner,
                      ref_resourceId = trim decoded_id\<rparr>)
      \<and> parseResourceReference P (SStr (''https://'' @ hst @ path @ lg @ ''/''))
        = Inr (Some \<lparr>ref_baseUrl = ''https://'' @ hst,
                      ref_portalPrefix = concat (map ((#) CHR ''/'') pre),
                      ref_resourceOwnerUsername = trim decoded_owner,
                      ref_resourceId = trim decoded_id\<rparr>))
   \<and> (CHR ''%'' \<notin> set s \<longrightarrow> decodeURIComponent s = Some s)
   \<and> (s \<noteq> [] \<and> startsWord (hd s) \<and> endsWord (last s) \<longrightarrow> trim s = s)
   \<and> (resource = SUndefined \<or> resource = SNull \<or> trim (toString resource) = []
        \<longrightarrow> parseResourceReference P resource = Inr None)
   \<and> (URL P (trim (toString resource)) = None \<longrightarrow> parseResourceReference P resource = Inr None)
   \<and> (URL P (trim raw) = Some parsed
        \<and> (\<forall>j. j + 4 \<le> length (pathSegments P (pathname parsed)) \<longrightarrow>
               \<not> (pathSegments P (pathname parsed) ! j = ''u''
                  \<and> pathSegments P (pathname parsed) ! (j + 2) = ''resources''))
        \<longrightarrow> parseResourceReference P (SStr raw) = Inr None)
   \<and> (URL P (trim raw) = Some parsed
        \<and> findResource (pathSegments P (pathname parsed)) 0 = Some k
        \<and> decodeURIComponent (pathSegments P (pathname parsed) ! (k + 1)) = Some o'
        \<and> decodeURIComponent (pathSegments P (pathname parsed) ! (k + 3)) = Some i'
        \<and> (trim o' = [] \<or> trim i' = [])
        \<longrightarrow> parseResourceReference P (SStr raw) = Inr None)"
  (is "(?H \<longrightarrow> ?R) \<and> ?D \<and> ?T \<and> ?N1 \<and> ?N2 \<and> ?N3 \<and> ?N4")
proof -
  let ?segs = "pre @ [''u'', owner', ''resources'', rid]"
  let ?ref = "\<lparr>ref_baseUrl = ''https://'' @ hst,
                ref_portalPrefix = concat (map ((#) CHR ''/'') pre),
                ref_resourceOwnerUsername = trim decoded_owner,
                ref_resourceId = trim decoded_id\<rparr>"
  have roundtrip:
    "parseResourceReference P (SStr (''https://'' @ hst @ path)) = Inr (Some ?ref)
     \<and> parseResourceReference P (SStr (''https://'' @ hst @ path @ lg @ ''/'')) = Inr (Some ?ref)"
    if seg: "\<forall>s \<in> set (pre @ [owner', rid, lg]). s \<noteq> [] \<and> CHR ''/'' \<notin> set s"
      and hst: "hst \<noteq> []" "last hst \<noteq> CHR ''/''"
      and lg: "toLowerCase P lg = ''logs''"
      and nl: "toLowerCase P rid \<noteq> ''logs''"
      and first: "\<forall>j < length pre. \<not> (?segs ! j = ''u'' \<and> ?segs ! (j + 2) = ''resources'')"
      and dec: "decodeURIComponent owner' = Some decoded_owner"
        "decodeURIComponent rid = Some decoded_id"
      and nb: "trim decoded_owner \<noteq> []" "trim decoded_id \<noteq> []"
      and path: "path = concat (map ((#) CHR ''/'') ?segs) @ ''/''"
      and u1: "URL P (''https://'' @ hst @ path)
          = Some \<lparr>protocol = ''https:'', host = hst, hostname = hn, pathname = path\<rparr>"
      and u2: "URL P (''https://'' @ hst @ path @ lg @ ''/'')
          = Some \<lparr>protocol = ''https:'', host = hst, hostname = hn, pathname = path @ lg @ ''/''\<rparr>"
  proof -
    let ?parsed1 = "\<lparr>protocol = ''https:'', host = hst, hostname = hn, pathname = path\<rparr>"
    let ?parsed2 = "\<lparr>protocol = ''https:'', host = hst, hostname = hn,
                      pathname = path @ lg @ ''/''\<rparr>"
    have segs1: "\<forall>s \<in> set ?segs. s \<noteq> [] \<and> CHR ''/'' \<notin> set s"
      using seg by auto
    have segs2: "\<forall>s \<in> set (?segs @ [lg]). s \<noteq> [] \<and> CHR ''/'' \<notin> set s"
      using seg by auto
    have path2: "path @ lg @ ''/'' = concat (map ((#) CHR ''/'') (?segs @ [lg])) @ ''/''"
      by (simp add: path)
    obtain rest where rest: "path = rest @ ''/''"
      using path by blast
    have t1: "trim (''https://'' @ hst @ path) = ''https://'' @ hst @ path"
      unfolding rest by (rule resource_url_trim)
    have t2: "trim (''https://'' @ hst @ path @ lg @ ''/'') = ''https://'' @ hst @ path @ lg @ ''/''"
      using resource_url_trim [of hst "path @ lg"] by simp
    have s1: "pathSegments P (pathname ?parsed1) = ?segs"
      using path_pathSegments(1) [OF segs1, of P] nl by (simp add: path)
    have "pathSegments P (concat (map ((#) CHR ''/'') (?segs @ [lg])) @ ''/'')
            = butlast (?segs @ [lg])"
      using lg by (intro path_pathSegments(2) [OF segs2]) simp_all
    then have s2: "pathSegments P (pathname ?parsed2) = ?segs"
      by (simp only: path2 [symmetric] butlast_snoc) simp
    have pre: "\<forall>s \<in> set pre. s \<noteq> []"
      using seg by simp
    have m1: "makeReference ?parsed1 (trim decoded_owner) (trim decoded_id) pre = Some ?ref"
      by (rule makeReference_prefix) (simp_all add: nb pre hst)
    have m2: "makeReference ?parsed2 (trim decoded_owner) (trim decoded_id) pre = Some ?ref"
      by (rule makeReference_prefix) (simp_all add: nb pre hst)
    have "parseResourceReference P (SStr (''https://'' @ hst @ path)) = Inr (Some ?ref)"
      using parse_reference_found [of "''https://'' @ hst @ path" P ?parsed1, OF _ _ s1 first dec]
        u1 m1 by (simp only: t1) simp
    moreover have "parseResourceReference P (SStr (''https://'' @ hst @ path @ lg @ ''/''))
                     = Inr (Some ?ref)"
      using parse_reference_found [of "''https://'' @ hst @ path @ lg @ ''/''" P ?parsed2,
          OF _ _ s2 first dec]
        u2 m2 by (simp only: t2) simp
    ultimately show ?thesis
      by simp
  qed
  have "?H \<longrightarrow> ?R"
  proof
    assume h: ?H
    show ?R
      by (rule roundtrip) (use h in blast)+
  qed
  moreover have ?D
    by (simp add: decodeURIComponent_plain)
  moreover have ?T
    by (simp add: trim_unchanged)
  moreover have ?N1
    using parse_null_input [of resource P] by blast
  moreover have ?N2
    by (simp add: parse_malformed)
  moreover have ?N3
    using parse_no_pattern [of P raw parsed] by blast
  moreover have ?N4
    using parse_blank [of P raw parsed k o' i'] by blast
  ultimately show ?thesis
    by (intro conjI)
qed

theorem parseResourceReference_cases_witness:
  "parseResourceReference simplePlatform (SStr ''https://host/x/y/u/OWNER/resources/ID/'')
     = Inr (Some \<lparr>ref_baseUrl = ''https://host'', ref_portalPrefix = ''/x/y'',
                   ref_resourceOwnerUsername = ''OWNER'', ref_resourceId = ''ID''\<rparr>)
   \<and> parseResourceReference simplePlatform (SStr ''https://host/x/y/u/OWNER/resources/ID/Logs/'')
     = Inr (Some \<lparr>ref_baseUrl = ''https://host'', ref_portalPrefix = ''/x/y'',
                   ref_resourceOwnerUsername = ''OWNER'', ref_resourceId = ''ID''\<rparr>)
   \<and> parseResourceReference simplePlatform (SStr ''   '') = Inr None
   \<and> parseResourceReference simplePlatform (SStr ''host/u/OWNER/resources/ID/'') = Inr None
   \<and> parseResourceReference simplePlatform (SStr ''https://host/OWNER/resources/ID/'') = Inr None"
proof -
  let ?parsed = "\<lparr>protocol = ''https:'', host = ''host'', hostname = ''host'',
                   pathname = ''/OWNER/resources/ID/''\<rparr>"
  have seg: "\<forall>s \<in> set ([''x'', ''y''] @ [''OWNER'', ''ID'', ''Logs'']). s \<noteq> [] \<and> CHR ''/'' \<notin> set s"
    "last ''host'' \<noteq> CHR ''/''"
    "\<forall>j < length [''x'', ''y''].
        \<not> (([''x'', ''y''] @ [''u'', ''OWNER'', ''resources'', ''ID'']) ! j = ''u''
           \<and> ([''x'', ''y''] @ [''u'', ''OWNER'', ''resources'', ''ID'']) ! (j + 2) = ''resources'')"
    by (simp_all add: less_Suc_eq)
  have low: "toLowerCase simplePlatform ''ID'' \<noteq> ''logs''"
    "toLowerCase simplePlatform ''Logs'' = ''logs''"
    by code_simp+
  have dec: "decodeURIComponent ''OWNER'' = Some ''OWNER''" "decodeURIComponent ''ID'' = Some ''ID''"
    "trim ''OWNER'' = ''OWNER''" "trim ''ID'' = ''ID''" "trim ''   '' = []"
    "trim ''host/u/OWNER/resources/ID/'' = ''host/u/OWNER/resources/ID/''"
    "trim ''https://host/OWNER/resources/ID/'' = ''https://host/OWNER/resources/ID/''"
    by code_simp+
  have url: "URL simplePlatform ''https://host/x/y/u/OWNER/resources/ID/''
               = Some \<lparr>protocol = ''https:'', host = ''host'', hostname = ''host'',
                       pathname = ''/x/y/u/OWNER/resources/ID/''\<rparr>"
    "URL simplePlatform ''https://host/x/y/u/OWNER/resources/ID/Logs/''
               = Some \<lparr>protocol = ''https:'', host = ''host'', hostname = ''host'',
                       pathname = ''/x/y/u/OWNER/resources/ID/Logs/''\<rparr>"
    "URL simplePlatform ''host/u/OWNER/resources/ID/'' = None"
    "URL simplePlatform ''https://host/OWNER/resources/ID/'' = Some ?parsed"
    by code_simp+
  have segs: "pathSegments simplePlatform (pathname ?parsed) = [''OWNER'', ''resources'', ''ID'']"
    by code_simp
  have nomatch: "\<forall>j. j + 4 \<le> length (pathSegments simplePlatform (pathname ?parsed)) \<longrightarrow>
               \<not> (pathSegments simplePlatform (pathname ?parsed) ! j = ''u''
                  \<and> pathSegments simplePlatform (pathname ?parsed) ! (j + 2) = ''resources'')"
    by (simp only: segs) simp
  note inst = parseResourceReference_cases [where P = simplePlatform and hst = "''host''"
        and pre = "[''x'', ''y'']" and owner' = "''OWNER''" and rid = "''ID''" and lg = "''Logs''"
        and decoded_owner = "''OWNER''" and decoded_id = "''ID''" and hn = "''host''"
        and path = "''/x/y/u/OWNER/resources/ID/''"
        and resource = "SStr ''   ''" and raw = "''https://host/OWNER/resources/ID/''"
        and parsed = ?parsed]
  have "parseResourceReference simplePlatform (SStr ''https://host/OWNER/resources/ID/'') = Inr None"
    using inst nomatch url(4) by (simp only: dec)
  moreover have "parseResourceReference simplePlatform (SStr ''host/u/OWNER/resources/ID/'') = Inr None"
    using parseResourceReference_cases [where P = simplePlatform
        and resource = "SStr ''host/u/OWNER/resources/ID/''"]
    by (simp add: dec url)
  moreover have "parseResourceReference simplePlatform (SStr ''   '') = Inr None"
    using inst by (simp add: dec)
  moreover have "parseResourceReference simplePlatform (SStr ''https://host/x/y/u/OWNER/resources/ID/'')
     = Inr (Some \<lparr>ref_baseUrl = ''https://host'', ref_portalPrefix = ''/x/y'',
                   ref_resourceOwnerUsername = ''OWNER'', ref_resourceId = ''ID''\<rparr>)
   \<and> parseResourceReference simplePlatform (SStr ''https://host/x/y/u/OWNER/resources/ID/Logs/'')
     = Inr (Some \<lparr>ref_baseUrl = ''https://host'', ref_portalPrefix = ''/x/y'',
                   ref_resourceOwnerUsername = ''OWNER'', ref_resourceId = ''ID''\<rparr>)"
    using inst seg by (simp add: low dec url)
  ultimately show ?thesis
    by simp
qed

text \<open>
  The claim as it stands fails for the resource id \<open>logs\<close>: the URL without the suffix
  loses its id, while the URL with the suffix parses.
\<close>

theorem parseResourceReference_counterexample:
  "parseResourceReference simplePlatform (SStr ''https://host/Prefix/u/OWNER/resources/logs/'')
     = Inr None
   \<and> parseResourceReference simplePlatform (SStr ''https://host/Prefix/u/OWNER/resources/logs/logs/'')
     = Inr (Some \<lparr>ref_baseUrl = ''https://host'', ref_portalPrefix = ''/Prefix'',
                   ref_resourceOwnerUsername = ''OWNER'', ref_resourceId = ''logs''\<rparr>)
   \<and> simpleURL ''https://host/Prefix/u/OWNER/resources/logs/''
     = Some \<lparr>protocol = ''https:'', host = ''host'', hostname = ''host'',
             pathname = ''/Prefix/u/OWNER/resources/logs/''\<rparr>"
  by code_simp

end
